theory Spec2Isabelle
  imports Main "HOL-Library.AList"
begin

section \<open>Dark web monitoring dashboard: ingestion and aggregation\<close>

text \<open>
  The program is one Python module, \<^verbatim>\<open>Dark_web_monitoring_dashboard.py\<close>. Its logic is
  \<^verbatim>\<open>clean_column_names\<close>, \<^verbatim>\<open>process_uploaded_files\<close> and the callback
  \<^verbatim>\<open>update_dashboard\<close>; the rest is page layout. The three functions are embedded below,
  with pandas data frames as a list of column labels over a list of rows, every
  \<^verbatim>\<open>raise\<close> as a value of \<open>error + 'a\<close>, and the library calls whose result the module
  cannot determine (base64 decoding, spreadsheet parsing, date parsing) as parameters.
\<close>

subsection \<open>Values\<close>

text \<open>The exceptions that can leave the three functions, by their Python class.\<close>

datatype error =
  PreventUpdate | ValueError | AttributeError | KeyError | BinasciiError | InvalidIndexError

text \<open>One statement after another: the first one to raise ends the function.\<close>

definition seq :: "error + 'a \<Rightarrow> ('a \<Rightarrow> error + 'b) \<Rightarrow> error + 'b" where
  "seq m f = (case m of Inl e \<Rightarrow> Inl e | Inr x \<Rightarrow> f x)"

text \<open>
  A header cell of a spreadsheet is text or a number; \<^verbatim>\<open>read_excel\<close> keeps a numeric
  header as a number, not as a string.
\<close>

datatype header = HText string | HNum int

text \<open>
  A body cell is missing (\<^verbatim>\<open>NaN\<close>, \<^verbatim>\<open>NaT\<close>), a string, or a timestamp (an instant on a
  linear time axis, as an integer). These are the kinds of value the six fields of a record
  hold; numeric cells are not covered.
\<close>

datatype cell = Null | Str string | Stamp int

text \<open>
  A data frame: the column labels in order (pandas allows a label to repeat) and the rows in
  order, one cell per column.
\<close>

record 'h frame =
  columns :: "'h list"
  rows :: "cell list list"

definition cell_at :: "cell list \<Rightarrow> nat \<Rightarrow> cell" where
  "cell_at row i = (if i < length row then row ! i else Null)"

definition len :: "'h frame \<Rightarrow> nat" where
  "len df = length (rows df)"

subsection \<open>Python strings\<close>

text \<open>
  A \<open>char\<close> stands for the code point of the same number, so a \<open>string\<close> is a Python
  \<^verbatim>\<open>str\<close> over the code points below 256. \<^verbatim>\<open>str.isspace\<close> holds there for the
  controls 9 to 13 and 28 to 31, the space, NEL (133) and the no-break space (160);
  \<^verbatim>\<open>str.lower\<close> moves A to Z and the capital letters 192 to 222 (except the
  multiplication sign, 215) up by 32.
\<close>

definition isspace :: "char \<Rightarrow> bool" where
  "isspace c =
     (let n = of_char c :: nat
      in (9 \<le> n \<and> n \<le> 13) \<or> (28 \<le> n \<and> n \<le> 32) \<or> n = 133 \<or> n = 160)"

definition lower_char :: "char \<Rightarrow> char" where
  "lower_char c =
     (let n = of_char c :: nat
      in if (65 \<le> n \<and> n \<le> 90) \<or> (192 \<le> n \<and> n \<le> 222 \<and> n \<noteq> 215)
         then char_of (n + 32) else c)"

definition strip :: "string \<Rightarrow> string" where
  "strip s = rev (dropWhile isspace (rev (dropWhile isspace s)))"

definition lower :: "string \<Rightarrow> string" where
  "lower s = map lower_char s"

text \<open>\<^verbatim>\<open>s.split(',')\<close>: the pieces between the separators, one more than there are separators.\<close>

fun str_split :: "char \<Rightarrow> string \<Rightarrow> string list" where
  "str_split sep [] = [[]]"
| "str_split sep (c # cs) =
     (if c = sep then [] # str_split sep cs
      else (case str_split sep cs of
              [] \<Rightarrow> [[c]]
            | piece # pieces \<Rightarrow> (c # piece) # pieces))"

subsection \<open>The column normalizer\<close>

definition REQUIRED_COLUMNS :: "string list" where
  "REQUIRED_COLUMNS =
     [''Keyword'', ''URL'', ''Findings'', ''Link Response'', ''Time'', ''Date'']"

text \<open>
  \<^verbatim>\<open>[col.strip().lower() for col in df.columns]\<close>: a label that is not a string has no
  \<^verbatim>\<open>strip\<close>, and the comprehension raises \<^verbatim>\<open>AttributeError\<close> at the first such label.
\<close>

fun fold_names :: "header list \<Rightarrow> error + string list" where
  "fold_names [] = Inr []"
| "fold_names (HText s # cols) =
     (case fold_names cols of
        Inl e \<Rightarrow> Inl e
      | Inr names \<Rightarrow> Inr (lower (strip s) # names))"
| "fold_names (HNum n # cols) = Inl AttributeError"

definition column_mapping :: "(string \<times> string) list" where
  "column_mapping =
     [(''keyword'', ''Keyword''),
      (''link'', ''URL''),
      (''findings'', ''Findings''),
      (''link response'', ''Link Response''),
      (''time'', ''Time''),
      (''date'', ''Date'')]"

text \<open>\<^verbatim>\<open>df.rename(columns=column_mapping)\<close> on one label: a label that is no key stays.\<close>

definition rename :: "string \<Rightarrow> string" where
  "rename c = (case map_of column_mapping c of Some t \<Rightarrow> t | None \<Rightarrow> c)"

definition clean_column_names :: "header frame \<Rightarrow> error + string frame" where
  "clean_column_names df =
     (case fold_names (columns df) of
        Inl e \<Rightarrow> Inl e
      | Inr names \<Rightarrow> Inr \<lparr>columns = map rename names, rows = rows df\<rparr>)"

text \<open>
  \<^verbatim>\<open>df[names]\<close> with a list of labels: for each requested label in turn, every column that
  carries it, in the frame's order, so a label that the frame has twice gives two columns.
  A requested label that the frame does not have raises \<^verbatim>\<open>KeyError\<close>.
\<close>

definition locs :: "string list \<Rightarrow> string \<Rightarrow> nat list" where
  "locs cols c = filter (\<lambda>i. cols ! i = c) [0..<length cols]"

definition getitem_list :: "string frame \<Rightarrow> string list \<Rightarrow> error + string frame" where
  "getitem_list df names =
     (if list_all (\<lambda>c. c \<in> set (columns df)) names
      then (let idx = concat (map (locs (columns df)) names)
            in Inr \<lparr>columns = map (\<lambda>i. columns df ! i) idx,
                     rows = map (\<lambda>row. map (cell_at row) idx) (rows df)\<rparr>)
      else Inl KeyError)"

text \<open>
  Lines 48 to 52, the part of the \<^verbatim>\<open>try\<close> block after the spreadsheet is read: the frame
  to append to \<^verbatim>\<open>data_frames\<close>, or none.
\<close>

definition accept_fragment :: "header frame \<Rightarrow> error + string frame option" where
  "accept_fragment raw =
     (case clean_column_names raw of
        Inl e \<Rightarrow> Inl e
      | Inr df \<Rightarrow>
          if list_all (\<lambda>col. col \<in> set (columns df)) REQUIRED_COLUMNS
          then (case getitem_list df REQUIRED_COLUMNS of
                  Inl e \<Rightarrow> Inl e
                | Inr part \<Rightarrow> Inr (Some part))
          else Inr None)"

subsection \<open>Reading the uploads\<close>

text \<open>
  What \<^verbatim>\<open>pd.to_datetime\<close> makes of one string: it cannot read it, or it reads it as a
  missing date (the empty string, \<^verbatim>\<open>"NaT"\<close>), or as a timestamp.
\<close>

datatype parsed = Unparseable | NaT | At int

text \<open>
  What the module takes from its libraries: \<^verbatim>\<open>base64.b64decode\<close> and
  \<^verbatim>\<open>pd.read_excel\<close> (\<open>None\<close>: the call raises), and the three steps
  \<^verbatim>\<open>pd.to_datetime\<close> is made of. \<open>parse_date\<close> reads one string on its own, with no
  format given. \<open>guess_format\<close> is the date format pandas infers from a string
  (\<open>None\<close>: it infers none), and \<open>strptime\<close> reads a string under a given format
  (\<open>None\<close>: the string does not match the format).
\<close>

record 'b library =
  b64decode :: "string \<Rightarrow> 'b option"
  read_excel :: "'b \<Rightarrow> header frame option"
  parse_date :: "string \<Rightarrow> parsed"
  guess_format :: "string \<Rightarrow> string option"
  strptime :: "string \<Rightarrow> string \<Rightarrow> int option"

text \<open>
  Lines 42 and 43 stand before the \<^verbatim>\<open>try\<close>: a content string that does not split into
  two pieces at commas, or whose second piece is no base64, ends the whole call.
\<close>

definition decode_content :: "'b library \<Rightarrow> string \<Rightarrow> error + 'b" where
  "decode_content lib content =
     (case str_split CHR '','' content of
        [content_type, content_string] \<Rightarrow>
          (case b64decode lib content_string of
             None \<Rightarrow> Inl BinasciiError
           | Some decoded \<Rightarrow> Inr decoded)
      | _ \<Rightarrow> Inl ValueError)"

text \<open>
  The \<^verbatim>\<open>try\<close> block with its \<^verbatim>\<open>except Exception\<close>: whatever is raised inside is
  printed and the file adds nothing.
\<close>

definition try_fragment :: "'b library \<Rightarrow> 'b \<Rightarrow> string frame list" where
  "try_fragment lib decoded =
     (case read_excel lib decoded of
        None \<Rightarrow> []
      | Some raw \<Rightarrow>
          (case accept_fragment raw of
             Inl e \<Rightarrow> []
           | Inr None \<Rightarrow> []
           | Inr (Some part) \<Rightarrow> [part]))"

text \<open>The loop over \<^verbatim>\<open>contents\<close>: the list \<^verbatim>\<open>data_frames\<close> it leaves.\<close>

fun data_frames :: "'b library \<Rightarrow> string list \<Rightarrow> error + string frame list" where
  "data_frames lib [] = Inr []"
| "data_frames lib (content # contents) =
     (case decode_content lib content of
        Inl e \<Rightarrow> Inl e
      | Inr decoded \<Rightarrow>
          (case data_frames lib contents of
             Inl e \<Rightarrow> Inl e
           | Inr dfs \<Rightarrow> Inr (try_fragment lib decoded @ dfs)))"

text \<open>
  \<^verbatim>\<open>pd.concat(dfs, ignore_index=True)\<close>: frames with the same labels are stacked. Frames
  whose labels differ would have to be aligned, which pandas refuses when a label repeats;
  after the projection to the required columns, labels differ only when one repeats.
\<close>

fun pd_concat :: "string frame list \<Rightarrow> error + string frame" where
  "pd_concat [] = Inl ValueError"
| "pd_concat (df # dfs) =
     (if list_all (\<lambda>d. columns d = columns df) dfs
      then Inr \<lparr>columns = columns df, rows = concat (map rows (df # dfs))\<rparr>
      else Inl InvalidIndexError)"

definition process_uploaded_files :: "'b library \<Rightarrow> string list \<Rightarrow> error + string frame" where
  "process_uploaded_files lib contents =
     (case data_frames lib contents of
        Inl e \<Rightarrow> Inl e
      | Inr dfs \<Rightarrow>
          if dfs \<noteq> [] then pd_concat dfs
          else Inr \<lparr>columns = REQUIRED_COLUMNS, rows = []\<rparr>)"

subsection \<open>The aggregator\<close>

text \<open>
  \<^verbatim>\<open>df[c]\<close> with one label: the column, when the frame has the label once;
  \<^verbatim>\<open>KeyError\<close> when it has not got it. When the label repeats the result is a frame,
  and what the callback does next with it (\<^verbatim>\<open>pd.to_datetime\<close>, \<^verbatim>\<open>.unique()\<close>,
  \<^verbatim>\<open>.str\<close>) raises; \<open>e\<close> is that error.
\<close>

definition getitem :: "error \<Rightarrow> string frame \<Rightarrow> string \<Rightarrow> error + cell list" where
  "getitem e df c =
     (case locs (columns df) c of
        [] \<Rightarrow> Inl KeyError
      | [i] \<Rightarrow> Inr (map (\<lambda>row. cell_at row i) (rows df))
      | _ \<Rightarrow> Inl e)"

text \<open>\<^verbatim>\<open>df[c] = values\<close>, used where the frame has the label \<open>c\<close>.\<close>

definition setitem :: "string frame \<Rightarrow> string \<Rightarrow> cell list \<Rightarrow> string frame" where
  "setitem df c vals =
     \<lparr>columns = columns df,
      rows = map2 (\<lambda>row v. fold (\<lambda>i r. r[i := v]) (locs (columns df) c) row) (rows df) vals\<rparr>"

text \<open>
  \<^verbatim>\<open>pd.to_datetime\<close> on a column, with its defaults (no \<^verbatim>\<open>format\<close>,
  \<^verbatim>\<open>errors='raise'\<close>). It looks for the first value of the column that is present, a
  string that reads as a missing date counting as absent, and so do the strings
  \<^verbatim>\<open>now\<close> and \<^verbatim>\<open>today\<close>. When that value is a string from
  which a format can be inferred, every string of the column is read under that one format,
  and a string that does not match it makes the whole call raise, even one that could be
  read on its own. Otherwise (the first present value is a timestamp, or no format can be
  inferred) each string is read on its own, and one that cannot be read makes the whole call
  raise. A missing value becomes \<^verbatim>\<open>NaT\<close> (\<open>None\<close>) and a timestamp stays. A library
  whose \<open>guess_format\<close> infers nothing is pandas before version 2, which reads every
  string on its own.
\<close>

fun first_present :: "'b library \<Rightarrow> cell list \<Rightarrow> cell option" where
  "first_present lib [] = None"
| "first_present lib (Null # cs) = first_present lib cs"
| "first_present lib (Stamp t # cs) = Some (Stamp t)"
| "first_present lib (Str s # cs) =
     (if parse_date lib s = NaT \<or> s = ''now'' \<or> s = ''today'' then first_present lib cs
      else Some (Str s))"

definition column_format :: "'b library \<Rightarrow> cell list \<Rightarrow> string option" where
  "column_format lib cs =
     (case first_present lib cs of
        Some (Str s) \<Rightarrow> guess_format lib s
      | _ \<Rightarrow> None)"

definition read_string :: "'b library \<Rightarrow> string option \<Rightarrow> string \<Rightarrow> parsed" where
  "read_string lib fmt s =
     (case fmt of
        None \<Rightarrow> parse_date lib s
      | Some f \<Rightarrow>
          if parse_date lib s = NaT then NaT
          else (case strptime lib f s of None \<Rightarrow> Unparseable | Some t \<Rightarrow> At t))"

fun to_timestamp :: "'b library \<Rightarrow> string option \<Rightarrow> cell \<Rightarrow> error + int option" where
  "to_timestamp lib fmt Null = Inr None"
| "to_timestamp lib fmt (Stamp t) = Inr (Some t)"
| "to_timestamp lib fmt (Str s) =
     (case read_string lib fmt s of
        Unparseable \<Rightarrow> Inl ValueError
      | NaT \<Rightarrow> Inr None
      | At t \<Rightarrow> Inr (Some t))"

fun convert :: "'b library \<Rightarrow> string option \<Rightarrow> cell list \<Rightarrow> error + int option list" where
  "convert lib fmt [] = Inr []"
| "convert lib fmt (c # cs) =
     (case to_timestamp lib fmt c of
        Inl e \<Rightarrow> Inl e
      | Inr t \<Rightarrow>
          (case convert lib fmt cs of
             Inl e \<Rightarrow> Inl e
           | Inr ts \<Rightarrow> Inr (t # ts)))"

definition to_datetime :: "'b library \<Rightarrow> cell list \<Rightarrow> error + int option list" where
  "to_datetime lib cs = convert lib (column_format lib cs) cs"

text \<open>
  \<^verbatim>\<open>pd.to_datetime\<close> on one string, as the callback converts the two dates of the range:
  pandas converts the column that holds this one string.
\<close>

definition parse :: "'b library \<Rightarrow> string \<Rightarrow> error + int option" where
  "parse lib s = to_timestamp lib (column_format lib [Str s]) (Str s)"

definition as_cell :: "int option \<Rightarrow> cell" where
  "as_cell t = (case t of None \<Rightarrow> Null | Some x \<Rightarrow> Stamp x)"

text \<open>
  \<^verbatim>\<open>(date >= start) & (date <= end)\<close> on one row: a comparison with \<^verbatim>\<open>NaT\<close>, on
  either side, is false.
\<close>

fun le_stamp :: "int option \<Rightarrow> int option \<Rightarrow> bool" where
  "le_stamp (Some x) (Some y) = (x \<le> y)"
| "le_stamp (Some x) None = False"
| "le_stamp None y = False"

definition in_range :: "int option \<Rightarrow> int option \<Rightarrow> int option \<Rightarrow> bool" where
  "in_range a b t = (le_stamp a t \<and> le_stamp t b)"

text \<open>\<^verbatim>\<open>df[keep]\<close> with a boolean column: the rows whose entry is true, in order.\<close>

definition boolean_index :: "string frame \<Rightarrow> bool list \<Rightarrow> string frame" where
  "boolean_index df keep =
     \<lparr>columns = columns df, rows = map fst (filter snd (zip (rows df) keep))\<rparr>"

text \<open>\<^verbatim>\<open>Series.unique()\<close>: the distinct values in order of first appearance.\<close>

definition unique :: "cell list \<Rightarrow> cell list" where
  "unique cs = rev (remdups (rev cs))"

text \<open>
  \<^verbatim>\<open>Series.str.contains("Keyword found", case=False, na=False)\<close> on one value: a regular
  expression search without regard to case (the pattern is letters and one space, so it
  matches itself); a value that is no string gives \<^verbatim>\<open>NaN\<close>, which \<^verbatim>\<open>na=False\<close> turns
  into false.
\<close>

fun match_here :: "string \<Rightarrow> string \<Rightarrow> bool" where
  "match_here [] s = True"
| "match_here (p # ps) [] = False"
| "match_here (p # ps) (c # cs) = (lower_char p = lower_char c \<and> match_here ps cs)"

fun search :: "string \<Rightarrow> string \<Rightarrow> bool" where
  "search pat [] = match_here pat []"
| "search pat (c # cs) = (match_here pat (c # cs) \<or> search pat cs)"

fun str_contains :: "string \<Rightarrow> cell \<Rightarrow> bool" where
  "str_contains pat (Str s) = search pat s"
| "str_contains pat Null = False"
| "str_contains pat (Stamp t) = False"

fun is_str :: "cell \<Rightarrow> bool" where
  "is_str (Str s) = True"
| "is_str Null = False"
| "is_str (Stamp t) = False"

text \<open>
  The \<^verbatim>\<open>.str\<close> accessor raises \<^verbatim>\<open>AttributeError\<close> unless the column holds text.
  \<open>whole\<close> is the column before the date filter, which fixes how pandas stores it: as
  objects when it has no rows or holds a string, and here as numbers or timestamps
  otherwise, which is how \<^verbatim>\<open>pd.read_excel\<close> gives a column with rows and no string.
  \<open>part\<close> is the filtered column: among objects it passes when nothing is present or a
  string is. The frame does not record how a column is stored, and
  \<^verbatim>\<open>pd.concat\<close> with a sheet that has no rows stores a column with rows and no string
  as objects, which the accessor takes when all of it is missing: where
  \<open>str_accessor\<close> holds the accessor does not raise, and where it does not hold the
  accessor may still accept such a column. The statements below use \<open>str_accessor\<close>
  to conclude that the accessor does not raise, never that it does.
\<close>

definition str_accessor :: "cell list \<Rightarrow> cell list \<Rightarrow> bool" where
  "str_accessor whole part =
     (whole = [] \<or>
      (list_ex is_str whole \<and> (list_all (\<lambda>c. c = Null) part \<or> list_ex is_str part)))"

text \<open>
  Sorting as pandas sorts group keys: strings by code point; timestamps by time, and
  before strings.
\<close>

fun str_le :: "string \<Rightarrow> string \<Rightarrow> bool" where
  "str_le [] t = True"
| "str_le (c # s) [] = False"
| "str_le (c # s) (d # t) = ((of_char c :: nat) < of_char d \<or> (c = d \<and> str_le s t))"

fun cell_le :: "cell \<Rightarrow> cell \<Rightarrow> bool" where
  "cell_le Null c = True"
| "cell_le (Stamp a) Null = False"
| "cell_le (Stamp a) (Stamp b) = (a \<le> b)"
| "cell_le (Stamp a) (Str t) = True"
| "cell_le (Str s) Null = False"
| "cell_le (Str s) (Stamp b) = False"
| "cell_le (Str s) (Str t) = str_le s t"

fun insort_by :: "('a \<Rightarrow> 'a \<Rightarrow> bool) \<Rightarrow> 'a \<Rightarrow> 'a list \<Rightarrow> 'a list" where
  "insort_by le x [] = [x]"
| "insort_by le x (y # ys) = (if le x y then x # y # ys else y # insort_by le x ys)"

definition sort_by :: "('a \<Rightarrow> 'a \<Rightarrow> bool) \<Rightarrow> 'a list \<Rightarrow> 'a list" where
  "sort_by le xs = foldr (insort_by le) xs []"

text \<open>The size of each group of equal present values, in order of first appearance.\<close>

definition sizes :: "cell list \<Rightarrow> (cell \<times> nat) list" where
  "sizes cs = map (\<lambda>k. (k, count_list cs k)) (unique (filter (\<lambda>c. c \<noteq> Null) cs))"

text \<open>\<^verbatim>\<open>groupby(c).size().reset_index(...)\<close>: one row per present key, by ascending key.\<close>

definition groupby_size :: "cell list \<Rightarrow> (cell \<times> nat) list" where
  "groupby_size cs = sort_by (\<lambda>x y. cell_le (fst x) (fst y)) (sizes cs)"

text \<open>\<^verbatim>\<open>value_counts().reset_index()\<close>: one row per present value, by descending count.\<close>

definition value_counts :: "cell list \<Rightarrow> (cell \<times> nat) list" where
  "value_counts cs = sort_by (\<lambda>x y. snd y \<le> snd x) (sizes cs)"

text \<open>
  \<^verbatim>\<open>df.to_dict('records')\<close>: one dictionary per row, from label to cell; a later
  binding of a label replaces the earlier one.
\<close>

definition to_dict_records :: "string frame \<Rightarrow> (string \<times> cell) list list" where
  "to_dict_records df =
     map (\<lambda>row. fold (\<lambda>kv d. AList.update (fst kv) (snd kv) d) (zip (columns df) row) [])
       (rows df)"

text \<open>
  What lines 193 to 248 compute, under the names the callback gives them; the three
  figures are plotly's drawings of \<open>findings_over_time\<close>, \<open>keyword_data\<close> and
  \<open>success_counts\<close>.
\<close>

record dashboard =
  total_findings :: nat
  unique_keywords :: nat
  monitored_urls :: nat
  found_keyword_count :: nat
  findings_over_time :: "(cell \<times> nat) list"
  keyword_data :: "(cell \<times> nat) list"
  success_counts :: "(cell \<times> nat) list"
  filtered_data :: "string frame"

definition aggregate ::
  "'b library \<Rightarrow> string frame \<Rightarrow> string \<Rightarrow> string \<Rightarrow> error + dashboard" where
  "aggregate lib data0 start_date end_date =
     seq (getitem ValueError data0 ''Date'') (\<lambda>raw_dates.
     seq (to_datetime lib raw_dates) (\<lambda>dates.
     let data = setitem data0 ''Date'' (map as_cell dates) in
     seq (parse lib start_date) (\<lambda>a.
     seq (parse lib end_date) (\<lambda>b.
     let filtered = boolean_index data (map (in_range a b) dates) in
     seq (getitem AttributeError filtered ''Keyword'') (\<lambda>keywords.
     seq (getitem AttributeError filtered ''URL'') (\<lambda>urls.
     seq (getitem AttributeError filtered ''Findings'') (\<lambda>findings.
     seq (getitem AttributeError data ''Findings'') (\<lambda>all_findings.
     if \<not> str_accessor all_findings findings then Inl AttributeError else
     let found_keywords =
           boolean_index filtered (map (str_contains ''Keyword found'') findings) in
     seq (getitem KeyError filtered ''Date'') (\<lambda>days.
     seq (getitem KeyError found_keywords ''Keyword'') (\<lambda>hits.
     Inr \<lparr>total_findings = len filtered,
          unique_keywords = length (unique keywords),
          monitored_urls = length (unique urls),
          found_keyword_count = len found_keywords,
          findings_over_time = groupby_size days,
          keyword_data = value_counts keywords,
          success_counts = groupby_size hits,
          filtered_data = filtered\<rparr>))))))))))"

subsection \<open>The callback\<close>

fun digit :: "nat \<Rightarrow> char" where
  "digit n = char_of (48 + n)"

fun str_nat :: "nat \<Rightarrow> string" where
  "str_nat n = (if n < 10 then [digit n] else str_nat (n div 10) @ [digit (n mod 10)])"

declare str_nat.simps [simp del]

text \<open>The eight outputs of the callback, in the order of its \<^verbatim>\<open>return\<close>.\<close>

record outputs =
  total_findings_children :: string
  unique_keywords_children :: string
  monitored_urls_children :: string
  found_keyword_count_children :: string
  findings_fig :: "(cell \<times> nat) list"
  keyword_frequency_fig :: "(cell \<times> nat) list"
  success_fig :: "(cell \<times> nat) list"
  table_data :: "(string \<times> cell) list list"

definition render :: "dashboard \<Rightarrow> outputs" where
  "render d =
     \<lparr>total_findings_children = ''Total Findings: '' @ str_nat (total_findings d),
      unique_keywords_children = ''Unique Keywords: '' @ str_nat (unique_keywords d),
      monitored_urls_children = ''Monitored URLs: '' @ str_nat (monitored_urls d),
      found_keyword_count_children = ''Found Keywords: '' @ str_nat (found_keyword_count d),
      findings_fig = findings_over_time d,
      keyword_frequency_fig = keyword_data d,
      success_fig = success_counts d,
      table_data = to_dict_records (filtered_data d)\<rparr>"

text \<open>\<open>contents\<close> is \<open>None\<close> until the first upload; then it is the list of content strings.\<close>

definition update_dashboard ::
  "'b library \<Rightarrow> string list option \<Rightarrow> string \<Rightarrow> string \<Rightarrow> error + outputs" where
  "update_dashboard lib contents start_date end_date =
     (case contents of
        None \<Rightarrow> Inl PreventUpdate
      | Some files \<Rightarrow>
          (case process_uploaded_files lib files of
             Inl e \<Rightarrow> Inl e
           | Inr data \<Rightarrow>
               (case aggregate lib data start_date end_date of
                  Inl e \<Rightarrow> Inl e
                | Inr d \<Rightarrow> Inr (render d))))"

text \<open>
  Dash runs the callback when an input changes and writes the eight outputs to the page;
  a callback that raises (\<^verbatim>\<open>PreventUpdate\<close> or an error) writes nothing, and the page
  keeps what it showed.
\<close>

definition fire ::
  "'b library \<Rightarrow> outputs \<Rightarrow> string list option \<Rightarrow> string \<Rightarrow> string \<Rightarrow> outputs" where
  "fire lib shown contents start_date end_date =
     (case update_dashboard lib contents start_date end_date of
        Inl e \<Rightarrow> shown
      | Inr new \<Rightarrow> new)"

subsection \<open>Notions used in the statements\<close>

text \<open>What line 24 and line 33 together make of one textual label.\<close>

definition normalized :: "string \<Rightarrow> string" where
  "normalized s = rename (lower (strip s))"

fun is_num :: "header \<Rightarrow> bool" where
  "is_num (HNum n) = True"
| "is_num (HText s) = False"

text \<open>A label folds to \<open>t\<close> when it is text that line 24 turns into \<open>t\<close>.\<close>

fun folds_to :: "header \<Rightarrow> string \<Rightarrow> bool" where
  "folds_to (HText s) t = (lower (strip s) = t)"
| "folds_to (HNum n) t = False"

text \<open>A textual label that lines 24 and 33 turn into \<open>c\<close>.\<close>

fun named :: "header \<Rightarrow> string \<Rightarrow> bool" where
  "named (HText s) c = (normalized s = c)"
| "named (HNum n) c = False"

text \<open>
  Lines 194 to 197 once the dates are converted: the table with its \<^verbatim>\<open>Date\<close> column
  replaced by the converted dates, cut down to the rows in range.
\<close>

definition date_filter ::
  "string frame \<Rightarrow> int option list \<Rightarrow> int option \<Rightarrow> int option \<Rightarrow> string frame" where
  "date_filter data0 dates a b =
     boolean_index (setitem data0 ''Date'' (map as_cell dates)) (map (in_range a b) dates)"


text \<open>The values of a column in the rows that a boolean column keeps.\<close>

definition kept :: "'a list \<Rightarrow> bool list \<Rightarrow> 'a list" where
  "kept xs keep = map fst (filter snd (zip xs keep))"


text \<open>Every element twice: a table in which each row is duplicated.\<close>

definition twice :: "'a list \<Rightarrow> 'a list" where
  "twice xs = concat (map (\<lambda>x. [x, x]) xs)"

subsection \<open>Example uploads\<close>

text \<open>
  Spreadsheets as \<^verbatim>\<open>read_excel\<close> returns them. In \<open>sheet_export\<close> the headers differ from
  the canonical names in case and spacing and there is a seventh column; its rows fall on
  1 January 2021 (three) and on 1 February 2021 (two).
\<close>

definition sheet_export :: "header frame" where
  "sheet_export =
     \<lparr>columns = [HText '' Keyword'', HText ''LINK'', HText ''Findings '',
                 HText ''Link Response'', HText ''TIME'', HText ''date'', HText ''Notes''],
      rows = [[Str ''leak'', Str ''a.onion'', Str ''KEYWORD FOUND: xyz'', Str ''200'',
               Str ''10:00'', Str ''2021-01-01'', Str ''n1''],
              [Str ''leak'', Str ''b.onion'', Str ''nothing'', Str ''404'',
               Str ''10:05'', Str ''2021-01-01'', Null],
              [Str ''dump'', Str ''b.onion'', Null, Str ''200'',
               Str ''10:10'', Stamp 1, Str ''n3''],
              [Str ''dump'', Str ''c.onion'', Str ''Keyword found in page'', Str ''200'',
               Str ''11:00'', Str ''2021-02-01'', Null],
              [Str ''leak'', Str ''c.onion'', Str ''nothing'', Str ''200'',
               Str ''11:05'', Str ''2021-02-01'', Null]]\<rparr>"

text \<open>The headers are the canonical names themselves.\<close>

definition sheet_canonical :: "header frame" where
  "sheet_canonical =
     \<lparr>columns = [HText ''Keyword'', HText ''URL'', HText ''Findings'',
                 HText ''Link Response'', HText ''Time'', HText ''Date''],
      rows = [[Str ''leak'', Str ''a.onion'', Str ''Keyword found'', Str ''200'',
               Str ''10:00'', Str ''2021-01-01'']]\<rparr>"

text \<open>No time column.\<close>

definition sheet_no_time :: "header frame" where
  "sheet_no_time =
     \<lparr>columns = [HText ''keyword'', HText ''link'', HText ''findings'',
                 HText ''link response'', HText ''date''],
      rows = [[Str ''leak'', Str ''a.onion'', Str ''Keyword found'', Str ''200'',
               Str ''2021-01-01'']]\<rparr>"

text \<open>Two headers that both fold to \<^verbatim>\<open>link\<close>.\<close>

definition sheet_two_links :: "header frame" where
  "sheet_two_links =
     \<lparr>columns = [HText ''keyword'', HText '' Link '', HText ''LINK'', HText ''findings'',
                 HText ''link response'', HText ''time'', HText ''date''],
      rows = [[Str ''leak'', Str ''a.onion'', Str ''mirror.onion'', Str ''Keyword found'',
               Str ''200'', Str ''10:00'', Str ''2021-01-01'']]\<rparr>"

text \<open>The six columns and a seventh whose header is the number 2021.\<close>

definition sheet_numeric_header :: "header frame" where
  "sheet_numeric_header =
     \<lparr>columns = [HText ''keyword'', HText ''link'', HText ''findings'',
                 HText ''link response'', HText ''time'', HText ''date'', HNum 2021],
      rows = [[Str ''leak'', Str ''a.onion'', Str ''Keyword found'', Str ''200'',
               Str ''10:00'', Str ''2021-01-01'', Str ''x'']]\<rparr>"

text \<open>One date that is no date; one empty date cell; one date in another format.\<close>

definition sheet_bad_date :: "header frame" where
  "sheet_bad_date =
     \<lparr>columns = [HText ''keyword'', HText ''link'', HText ''findings'',
                 HText ''link response'', HText ''time'', HText ''date''],
      rows = [[Str ''leak'', Str ''a.onion'', Str ''Keyword found'', Str ''200'',
               Str ''10:00'', Str ''2021-01-01''],
              [Str ''leak'', Str ''b.onion'', Str ''nothing'', Str ''200'',
               Str ''10:05'', Str ''not a date'']]\<rparr>"

definition sheet_empty_date :: "header frame" where
  "sheet_empty_date =
     \<lparr>columns = [HText ''keyword'', HText ''link'', HText ''findings'',
                 HText ''link response'', HText ''time'', HText ''date''],
      rows = [[Str ''leak'', Str ''a.onion'', Str ''Keyword found'', Str ''200'',
               Str ''10:00'', Str ''2021-01-01''],
              [Str ''leak'', Str ''b.onion'', Str ''nothing'', Str ''200'',
               Str ''10:05'', Null]]\<rparr>"

definition sheet_mixed_format :: "header frame" where
  "sheet_mixed_format =
     \<lparr>columns = [HText ''keyword'', HText ''link'', HText ''findings'',
                 HText ''link response'', HText ''time'', HText ''date''],
      rows = [[Str ''leak'', Str ''a.onion'', Str ''Keyword found'', Str ''200'',
               Str ''10:00'', Str ''2021-01-01''],
              [Str ''leak'', Str ''b.onion'', Str ''nothing'', Str ''200'',
               Str ''10:05'', Str ''01/02/2021'']]\<rparr>"

text \<open>
  A library for the examples. A payload is named by its base64 text; \<^verbatim>\<open>b64decode\<close>
  refuses one text, \<^verbatim>\<open>read_excel\<close> knows the sheets above and raises on every other
  payload, and dates are counted in days, 1 January 2021 being day 1. It reads
  \<^verbatim>\<open>01/02/2021\<close> as 2 January 2021 on its own, infers the format \<^verbatim>\<open>%Y-%m-%d\<close> from
  the dates written with hyphens and \<^verbatim>\<open>%m/%d/%Y\<close> from that one, and reads each of them
  under its own format only.
\<close>

definition example_lib :: "string library" where
  "example_lib =
     \<lparr>b64decode = (\<lambda>s. if s = ''='' then None else Some s),
      read_excel =
        (\<lambda>b. if b = ''export'' then Some sheet_export
             else if b = ''canonical'' then Some sheet_canonical
             else if b = ''notime'' then Some sheet_no_time
             else if b = ''twolinks'' then Some sheet_two_links
             else if b = ''numeric'' then Some sheet_numeric_header
             else if b = ''baddate'' then Some sheet_bad_date
             else if b = ''emptydate'' then Some sheet_empty_date
             else if b = ''mixedformat'' then Some sheet_mixed_format
             else None),
      parse_date =
        (\<lambda>s. if s = ''2021-01-01'' then At 1
             else if s = ''2021-01-31'' then At 31
             else if s = ''2021-02-01'' then At 32
             else if s = ''2021-12-31'' then At 365
             else if s = ''01/02/2021'' then At 2
             else if s = [] then NaT
             else Unparseable),
      guess_format =
        (\<lambda>s. if s = ''2021-01-01'' \<or> s = ''2021-01-31'' \<or> s = ''2021-02-01'' \<or>
                s = ''2021-12-31'' then Some ''%Y-%m-%d''
             else if s = ''01/02/2021'' then Some ''%m/%d/%Y''
             else None),
      strptime =
        (\<lambda>f s. if f = ''%Y-%m-%d'' then
                  (if s = ''2021-01-01'' then Some 1
                   else if s = ''2021-01-31'' then Some 31
                   else if s = ''2021-02-01'' then Some 32
                   else if s = ''2021-12-31'' then Some 365
                   else None)
               else if f = ''%m/%d/%Y'' \<and> s = ''01/02/2021'' then Some 2
               else None)\<rparr>"

definition upload :: "string \<Rightarrow> string" where
  "upload payload = ''data:application/vnd.ms-excel;base64,'' @ payload"

text \<open>The accepted rows of \<open>sheet_export\<close>, as the canonical table.\<close>

definition table_export :: "string frame" where
  "table_export =
     \<lparr>columns = REQUIRED_COLUMNS,
      rows = [[Str ''leak'', Str ''a.onion'', Str ''KEYWORD FOUND: xyz'', Str ''200'',
               Str ''10:00'', Str ''2021-01-01''],
              [Str ''leak'', Str ''b.onion'', Str ''nothing'', Str ''404'',
               Str ''10:05'', Str ''2021-01-01''],
              [Str ''dump'', Str ''b.onion'', Null, Str ''200'',
               Str ''10:10'', Stamp 1],
              [Str ''dump'', Str ''c.onion'', Str ''Keyword found in page'', Str ''200'',
               Str ''11:00'', Str ''2021-02-01''],
              [Str ''leak'', Str ''c.onion'', Str ''nothing'', Str ''200'',
               Str ''11:05'', Str ''2021-02-01'']]\<rparr>"




section \<open>Properties\<close>

subsection \<open>Folding and renaming labels\<close>

lemma lower_char_not_U: "lower_char c \<noteq> CHR ''U''"
proof
  assume h: "lower_char c = CHR ''U''"
  let ?n = "of_char c :: nat"
  have lt: "?n < 256" by simp
  show False
  proof (cases "(65 \<le> ?n \<and> ?n \<le> 90) \<or> (192 \<le> ?n \<and> ?n \<le> 222 \<and> ?n \<noteq> 215)")
    case True
    then have "lower_char c = char_of (?n + 32)" by (auto simp: lower_char_def Let_def)
    with h have "of_char (char_of (?n + 32)) = (of_char (CHR ''U'') :: nat)" by simp
    then have "(?n + 32) mod 256 = 85" by simp
    with True lt show False by auto
  next
    case False
    then have "lower_char c = c" by (auto simp: lower_char_def Let_def)
    with h have "?n = 85" by simp
    with False show False by simp
  qed
qed

lemma lower_not_URL: "lower s \<noteq> ''URL''"
proof
  assume "lower s = ''URL''"
  then have "CHR ''U'' \<in> set (map lower_char s)" by (simp add: lower_def)
  then obtain x where "lower_char x = CHR ''U''" by auto
  then show False using lower_char_not_U by blast
qed

lemma rename_URL: "rename n = ''URL'' \<Longrightarrow> n = ''link'' \<or> n = ''URL''"
  by (simp add: rename_def column_mapping_def split: if_splits)

lemma fold_names_folds:
  "fold_names cols = Inr names \<Longrightarrow> n \<in> set names \<Longrightarrow> list_ex (\<lambda>h. folds_to h n) cols"
proof (induction cols arbitrary: names rule: fold_names.induct)
  case 1
  then show ?case by simp
next
  case (2 s cols)
  then show ?case by (auto split: sum.splits)
next
  case (3 k cols)
  then show ?case by simp
qed

lemma fold_names_lower:
  "fold_names cols = Inr names \<Longrightarrow> n \<in> set names \<Longrightarrow> n \<noteq> ''URL''"
proof (induction cols arbitrary: names rule: fold_names.induct)
  case 1
  then show ?case by simp
next
  case (2 s cols)
  from "2.prems"(1) obtain rest where f: "fold_names cols = Inr rest"
    and names: "names = lower (strip s) # rest"
    by (auto split: sum.splits)
  from "2.prems"(2) names have "n = lower (strip s) \<or> n \<in> set rest" by simp
  then show ?case
  proof
    assume "n = lower (strip s)"
    then show ?thesis using lower_not_URL[of "strip s"] by simp
  next
    assume "n \<in> set rest"
    with "2.IH" f show ?thesis by blast
  qed
next
  case (3 k cols)
  then show ?case by simp
qed

lemma fold_names_error: "fold_names cols = Inl e \<Longrightarrow> e = AttributeError"
  by (induction cols rule: fold_names.induct) (auto split: sum.splits)

lemma no_link_no_URL:
  assumes "\<not> list_ex (\<lambda>h. folds_to h ''link'') (columns raw)"
    and "clean_column_names raw = Inr df"
  shows "''URL'' \<notin> set (columns df)"
proof
  assume u: "''URL'' \<in> set (columns df)"
  from assms(2) obtain names where f: "fold_names (columns raw) = Inr names"
    and c: "columns df = map rename names"
    by (auto simp: clean_column_names_def split: sum.splits)
  from u c obtain n where n: "n \<in> set names" "rename n = ''URL''" by auto
  from fold_names_lower[OF f n(1)] rename_URL[OF n(2)] have "n = ''link''" by simp
  with fold_names_folds[OF f n(1)] assms(1) show False by simp
qed

subsection \<open>Accepting a fragment\<close>

lemma fold_names_text:
  "fold_names (map HText names) = Inr (map (\<lambda>s. lower (strip s)) names)"
  by (induction names) simp_all

lemma fold_names_num: "list_ex is_num cols \<Longrightarrow> fold_names cols = Inl AttributeError"
proof (induction cols rule: fold_names.induct)
  case 1
  then show ?case by simp
next
  case (2 s cols)
  then show ?case by simp
next
  case (3 n cols)
  show ?case by simp
qed

lemma clean_text:
  "columns raw = map HText names \<Longrightarrow>
   clean_column_names raw = Inr \<lparr>columns = map normalized names, rows = rows raw\<rparr>"
  by (simp add: clean_column_names_def fold_names_text normalized_def comp_def)

lemma set_locs: "set (locs cols c) = {i. i < length cols \<and> cols ! i = c}"
  by (auto simp: locs_def)

lemma locs_snoc:
  "locs (cols @ [x]) c = locs cols c @ (if x = c then [length cols] else [])"
proof -
  have "filter (\<lambda>i. (cols @ [x]) ! i = c) [0..<length cols] =
        filter (\<lambda>i. cols ! i = c) [0..<length cols]"
    by (rule filter_cong) (simp_all add: nth_append)
  then show ?thesis by (simp add: locs_def)
qed

lemma count_list_snoc:
  "count_list (xs @ [x]) c = count_list xs c + (if x = c then 1 else 0)"
  by (induction xs) simp_all

lemma length_locs: "length (locs cols c) = count_list cols c"
proof (induction cols rule: rev_induct)
  case Nil
  show ?case by (simp add: locs_def)
next
  case (snoc x xs)
  then show ?case by (simp add: locs_snoc count_list_snoc)
qed

lemma locs_once:
  assumes "count_list cols c = 1" and "k < length cols" and "cols ! k = c"
  shows "locs cols c = [k]"
proof -
  from assms(1) have "length (locs cols c) = 1" by (simp add: length_locs)
  then obtain i where i: "locs cols c = [i]" by (cases "locs cols c") auto
  from assms(2,3) have "k \<in> set (locs cols c)" by (simp add: set_locs)
  with i show ?thesis by simp
qed

lemma locs_once_ex:
  assumes "count_list cols c = 1"
  shows "\<exists>k. locs cols c = [k] \<and> k < length cols \<and> cols ! k = c"
proof -
  from assms have "length (locs cols c) = 1" by (simp add: length_locs)
  then obtain i where i: "locs cols c = [i]" by (cases "locs cols c") auto
  then have "i \<in> set (locs cols c)" by simp
  then have "i < length cols \<and> cols ! i = c" by (simp add: set_locs)
  with i show ?thesis by blast
qed

lemma projection_labels:
  "list_all (\<lambda>c. count_list cols c = 1) names \<Longrightarrow>
   map (\<lambda>i. cols ! i) (concat (map (locs cols) names)) = names"
proof (induction names)
  case Nil
  show ?case by simp
next
  case (Cons c names)
  from Cons.prems obtain k where "locs cols c = [k]" "cols ! k = c"
    using locs_once_ex[of cols c] by auto
  with Cons show ?case by simp
qed

lemma projection_index:
  "list_all (\<lambda>c. count_list cols c = 1) names \<Longrightarrow> j < length names \<Longrightarrow>
   k < length cols \<Longrightarrow> cols ! k = names ! j \<Longrightarrow>
   length (concat (map (locs cols) names)) = length names \<and>
   concat (map (locs cols) names) ! j = k"
proof (induction names arbitrary: j)
  case Nil
  then show ?case by simp
next
  case (Cons c names)
  from Cons.prems(1) obtain i where i: "locs cols c = [i]"
    using locs_once_ex[of cols c] by auto
  have len: "length (concat (map (locs cols) names)) = length names"
    using Cons.prems(1)
  proof (induction names)
    case Nil
    show ?case by simp
  next
    case (Cons d ds)
    then obtain m where "locs cols d = [m]" using locs_once_ex[of cols d] by auto
    with Cons show ?case by simp
  qed
  show ?case
  proof (cases j)
    case 0
    with Cons.prems have "locs cols c = [k]" by (intro locs_once) simp_all
    with len 0 show ?thesis by simp
  next
    case (Suc j')
    with Cons.prems Cons.IH[of j'] i len show ?thesis by simp
  qed
qed


lemma try_fragment_text:
  assumes "read_excel lib decoded = Some raw" and "columns raw = map HText names"
  shows "try_fragment lib decoded =
     (if set REQUIRED_COLUMNS \<subseteq> set (map normalized names)
      then [\<lparr>columns = map (\<lambda>i. map normalized names ! i)
                          (concat (map (locs (map normalized names)) REQUIRED_COLUMNS)),
             rows = map (\<lambda>row. map (cell_at row)
                          (concat (map (locs (map normalized names)) REQUIRED_COLUMNS)))
                      (rows raw)\<rparr>]
      else [])"
proof -
  have "list_all (\<lambda>col. col \<in> set (map normalized names)) REQUIRED_COLUMNS \<longleftrightarrow>
      set REQUIRED_COLUMNS \<subseteq> set (map normalized names)"
    by (auto simp: list_all_iff)
  then show ?thesis
    using assms
    by (simp add: try_fragment_def accept_fragment_def clean_text getitem_list_def Let_def)
qed

text \<open>
  Claim C1 says that the normalizer folds and renames the column names of any raw table,
  accepts the table exactly when the six canonical names are then present, and emits exactly
  those six columns. Claim C1 as amended, for a sheet that \<^verbatim>\<open>read_excel\<close> has returned:
  a table with a column name that is not a string is rejected as a whole. A table whose
  column names are all strings has each name trimmed, lowercased and renamed by the fixed
  map; it is accepted if and only if the six canonical names are then among its names, and
  rejected as a whole, adding no row, otherwise. An accepted fragment has as many rows as the
  table; when each canonical name is the normalized name of one column only, the fragment
  has exactly the six canonical columns in their fixed order, and its row \<open>i\<close> holds under
  each canonical name the cell that row \<open>i\<close> of the table has in the column so named, so
  the order of the rows is kept. The names \<^verbatim>\<open>" Link "\<close>, \<^verbatim>\<open>"LINK"\<close> and \<^verbatim>\<open>"link"\<close> all
  normalize to \<^verbatim>\<open>URL\<close>.
\<close>

theorem column_normalizer:
  assumes "read_excel lib decoded = Some raw"
  shows "(list_ex is_num (columns raw) \<longrightarrow> try_fragment lib decoded = []) \<and>
    (columns raw = map HText names \<longrightarrow>
       clean_column_names raw = Inr \<lparr>columns = map normalized names, rows = rows raw\<rparr> \<and>
       (\<not> set REQUIRED_COLUMNS \<subseteq> set (map normalized names) \<longrightarrow>
          try_fragment lib decoded = []) \<and>
       (set REQUIRED_COLUMNS \<subseteq> set (map normalized names) \<longrightarrow>
          (\<exists>part. try_fragment lib decoded = [part] \<and> len part = len raw \<and>
             (list_all (\<lambda>c. count_list (map normalized names) c = 1) REQUIRED_COLUMNS \<longrightarrow>
                columns part = REQUIRED_COLUMNS \<and>
                (\<forall>i j k. i < len raw \<and> j < length REQUIRED_COLUMNS \<and> k < length names \<and>
                     normalized (names ! k) = REQUIRED_COLUMNS ! j \<longrightarrow>
                   rows part ! i ! j = cell_at (rows raw ! i) k))))) \<and>
    normalized '' Link '' = ''URL'' \<and> normalized ''LINK'' = ''URL'' \<and>
    normalized ''link'' = ''URL''"
proof (intro conjI impI)
  assume "list_ex is_num (columns raw)"
  then have "clean_column_names raw = Inl AttributeError"
    by (simp add: clean_column_names_def fold_names_num)
  then show "try_fragment lib decoded = []"
    using assms by (simp add: try_fragment_def accept_fragment_def)
next
  assume "columns raw = map HText names"
  then show "clean_column_names raw = Inr \<lparr>columns = map normalized names, rows = rows raw\<rparr>"
    by (rule clean_text)
next
  assume "columns raw = map HText names"
    and "\<not> set REQUIRED_COLUMNS \<subseteq> set (map normalized names)"
  then show "try_fragment lib decoded = []"
    using try_fragment_text[OF assms] by simp
next
  assume tx: "columns raw = map HText names"
    and all: "set REQUIRED_COLUMNS \<subseteq> set (map normalized names)"
  let ?cols = "map normalized names"
  let ?idx = "concat (map (locs ?cols) REQUIRED_COLUMNS)"
  let ?part = "\<lparr>columns = map (\<lambda>i. ?cols ! i) ?idx,
               rows = map (\<lambda>row. map (cell_at row) ?idx) (rows raw)\<rparr>"
  have tf: "try_fragment lib decoded = [?part]"
    using try_fragment_text[OF assms tx] all by simp
  have ln: "len ?part = len raw" by (simp add: len_def)
  have once: "list_all (\<lambda>c. count_list ?cols c = 1) REQUIRED_COLUMNS \<longrightarrow>
                columns ?part = REQUIRED_COLUMNS \<and>
                (\<forall>i j k. i < len raw \<and> j < length REQUIRED_COLUMNS \<and> k < length names \<and>
                     normalized (names ! k) = REQUIRED_COLUMNS ! j \<longrightarrow>
                   rows ?part ! i ! j = cell_at (rows raw ! i) k)"
  proof (intro impI conjI allI)
    assume u: "list_all (\<lambda>c. count_list ?cols c = 1) REQUIRED_COLUMNS"
    then show "columns ?part = REQUIRED_COLUMNS" by (simp add: projection_labels)
    fix i j k
    assume h: "i < len raw \<and> j < length REQUIRED_COLUMNS \<and> k < length names \<and>
                     normalized (names ! k) = REQUIRED_COLUMNS ! j"
    then have "k < length ?cols" "?cols ! k = REQUIRED_COLUMNS ! j" by simp_all
    with projection_index[OF u, of j k] h
    have "length ?idx = length REQUIRED_COLUMNS" "?idx ! j = k" by simp_all
    with h show "rows ?part ! i ! j = cell_at (rows raw ! i) k" by (simp add: len_def)
  qed
  from tf ln once
  show "\<exists>part. try_fragment lib decoded = [part] \<and> len part = len raw \<and>
             (list_all (\<lambda>c. count_list ?cols c = 1) REQUIRED_COLUMNS \<longrightarrow>
                columns part = REQUIRED_COLUMNS \<and>
                (\<forall>i j k. i < len raw \<and> j < length REQUIRED_COLUMNS \<and> k < length names \<and>
                     normalized (names ! k) = REQUIRED_COLUMNS ! j \<longrightarrow>
                   rows part ! i ! j = cell_at (rows raw ! i) k))"
    by (intro exI[of _ ?part] conjI)
next
  show "normalized '' Link '' = ''URL''" by code_simp
  show "normalized ''LINK'' = ''URL''" by code_simp
  show "normalized ''link'' = ''URL''" by code_simp
qed

text \<open>
  The claim as stated fails twice. The sheet with the headers \<^verbatim>\<open>" Link "\<close> and
  \<^verbatim>\<open>"LINK"\<close> is accepted with seven columns, not six. The sheet with the six columns and
  a seventh headed by the number 2021 has all six canonical names among its textual headers
  and is rejected.
\<close>

theorem column_normalizer_counterexample:
  "read_excel example_lib ''twolinks'' = Some sheet_two_links \<and>
   try_fragment example_lib ''twolinks'' =
     [\<lparr>columns = [''Keyword'', ''URL'', ''URL'', ''Findings'', ''Link Response'', ''Time'',
                  ''Date''],
       rows = [[Str ''leak'', Str ''a.onion'', Str ''mirror.onion'', Str ''Keyword found'',
                Str ''200'', Str ''10:00'', Str ''2021-01-01'']]\<rparr>] \<and>
   read_excel example_lib ''numeric'' = Some sheet_numeric_header \<and>
   list_all (\<lambda>c. list_ex (\<lambda>h. named h c) (columns sheet_numeric_header)) REQUIRED_COLUMNS \<and>
   try_fragment example_lib ''numeric'' = []"
  by code_simp

text \<open>
  The export is accepted as the canonical table; the sheet without a time column and the
  sheet with the numeric header add nothing.
\<close>

theorem column_normalizer_witness:
  "read_excel example_lib ''export'' = Some sheet_export \<and>
   columns sheet_export =
     map HText ['' Keyword'', ''LINK'', ''Findings '', ''Link Response'', ''TIME'', ''date'',
                ''Notes''] \<and>
   map normalized ['' Keyword'', ''LINK'', ''Findings '', ''Link Response'', ''TIME'', ''date'',
                   ''Notes''] =
     [''Keyword'', ''URL'', ''Findings'', ''Link Response'', ''Time'', ''Date'', ''notes''] \<and>
   try_fragment example_lib ''export'' = [table_export] \<and>
   columns table_export = REQUIRED_COLUMNS \<and>
   read_excel example_lib ''notime'' = Some sheet_no_time \<and>
   columns sheet_no_time =
     map HText [''keyword'', ''link'', ''findings'', ''link response'', ''date''] \<and>
   map normalized [''keyword'', ''link'', ''findings'', ''link response'', ''date''] =
     [''Keyword'', ''URL'', ''Findings'', ''Link Response'', ''Date''] \<and>
   try_fragment example_lib ''notime'' = [] \<and>
   read_excel example_lib ''numeric'' = Some sheet_numeric_header \<and>
   list_ex is_num (columns sheet_numeric_header) \<and>
   try_fragment example_lib ''numeric'' = []"
proof -
  let ?n1 = "['' Keyword'', ''LINK'', ''Findings '', ''Link Response'', ''TIME'', ''date'',
              ''Notes'']"
  let ?n2 = "[''keyword'', ''link'', ''findings'', ''link response'', ''date'']"
  have r1: "read_excel example_lib ''export'' = Some sheet_export" by code_simp
  have h1: "columns sheet_export = map HText ?n1" by (simp add: sheet_export_def)
  have m1: "map normalized ?n1 =
     [''Keyword'', ''URL'', ''Findings'', ''Link Response'', ''Time'', ''Date'', ''notes'']"
    by code_simp
  have s1: "set REQUIRED_COLUMNS \<subseteq> set (map normalized ?n1)"
    unfolding m1 by (simp add: REQUIRED_COLUMNS_def)
  have o1: "list_all (\<lambda>c. count_list (map normalized ?n1) c = 1) REQUIRED_COLUMNS"
    unfolding m1 by (simp add: REQUIRED_COLUMNS_def)
  from column_normalizer[OF r1, of ?n1] h1 s1 o1 obtain part where
    p: "try_fragment example_lib ''export'' = [part]" and c: "columns part = REQUIRED_COLUMNS"
    by blast
  have e1: "try_fragment example_lib ''export'' = [table_export]" by code_simp
  with p have "part = table_export" by simp
  with c have c1: "columns table_export = REQUIRED_COLUMNS" by simp
  have r2: "read_excel example_lib ''notime'' = Some sheet_no_time" by code_simp
  have h2: "columns sheet_no_time = map HText ?n2" by (simp add: sheet_no_time_def)
  have m2: "map normalized ?n2 =
     [''Keyword'', ''URL'', ''Findings'', ''Link Response'', ''Date'']"
    by code_simp
  have s2: "\<not> set REQUIRED_COLUMNS \<subseteq> set (map normalized ?n2)"
    unfolding m2 by (simp add: REQUIRED_COLUMNS_def)
  from column_normalizer[OF r2, of ?n2] h2 s2
  have e2: "try_fragment example_lib ''notime'' = []" by blast
  have r3: "read_excel example_lib ''numeric'' = Some sheet_numeric_header" by code_simp
  have h3: "list_ex is_num (columns sheet_numeric_header)"
    by (simp add: sheet_numeric_header_def)
  from column_normalizer[OF r3] h3
  have e3: "try_fragment example_lib ''numeric'' = []" by blast
  from r1 h1 m1 e1 c1 r2 h2 m2 e2 r3 h3 e3 show ?thesis by (intro conjI)
qed

subsection \<open>A table in the canonical schema\<close>

text \<open>
  Claim C8. A raw table none of whose column names folds to \<^verbatim>\<open>link\<close> is rejected as a
  whole, whatever else it holds: only \<^verbatim>\<open>link\<close> is renamed to \<^verbatim>\<open>URL\<close>, and a name that
  has been lowercased is not \<^verbatim>\<open>URL\<close>, so the cleaned frame has no column \<^verbatim>\<open>URL\<close> and
  the check for the six required columns fails. A column named \<^verbatim>\<open>URL\<close>, in any casing
  and spacing, becomes \<^verbatim>\<open>url\<close> and stays so; a table that already has the canonical
  headers is therefore not accepted.
\<close>

theorem url_header_rejected:
  assumes "read_excel lib decoded = Some raw"
    and "\<not> list_ex (\<lambda>h. folds_to h ''link'') (columns raw)"
  shows "try_fragment lib decoded = [] \<and>
         (accept_fragment raw = Inr None \<or> accept_fragment raw = Inl AttributeError) \<and>
         (\<forall>df. clean_column_names raw = Inr df \<longrightarrow> ''URL'' \<notin> set (columns df)) \<and>
         normalized ''URL'' = ''url'' \<and> normalized '' Url '' = ''url''"
proof -
  have a: "\<forall>df. clean_column_names raw = Inr df \<longrightarrow> ''URL'' \<notin> set (columns df)"
    using no_link_no_URL[OF assms(2)] by blast
  have b: "accept_fragment raw = Inr None \<or> accept_fragment raw = Inl AttributeError"
  proof (cases "clean_column_names raw")
    case (Inl e)
    then have "e = AttributeError"
      by (auto simp: clean_column_names_def split: sum.splits dest: fold_names_error)
    with Inl show ?thesis by (simp add: accept_fragment_def)
  next
    case (Inr df)
    with a have "''URL'' \<notin> set (columns df)" by simp
    then have "\<not> list_all (\<lambda>col. col \<in> set (columns df)) REQUIRED_COLUMNS"
      by (simp add: REQUIRED_COLUMNS_def)
    with Inr show ?thesis by (simp add: accept_fragment_def)
  qed
  have c: "try_fragment lib decoded = []"
    using b assms(1) by (auto simp: try_fragment_def)
  have d: "normalized ''URL'' = ''url''" by code_simp
  have e: "normalized '' Url '' = ''url''" by code_simp
  from a b c d e show ?thesis by blast
qed

text \<open>The sheet whose headers are the six canonical names is such a table.\<close>

theorem url_header_rejected_witness:
  "\<not> list_ex (\<lambda>h. folds_to h ''link'') (columns sheet_canonical) \<and>
   read_excel example_lib ''canonical'' = Some sheet_canonical \<and>
   try_fragment example_lib ''canonical'' = [] \<and>
   accept_fragment sheet_canonical = Inr None"
proof -
  have h1: "read_excel example_lib ''canonical'' = Some sheet_canonical" by code_simp
  have h2: "\<not> list_ex (\<lambda>h. folds_to h ''link'') (columns sheet_canonical)" by code_simp
  have n: "accept_fragment sheet_canonical \<noteq> Inl AttributeError" by code_simp
  from url_header_rejected[OF h1 h2] n h1 h2 show ?thesis by blast
qed

subsection \<open>Before the first upload\<close>

text \<open>
  Claim C10. While nothing has been uploaded the \<^verbatim>\<open>contents\<close> input is \<^verbatim>\<open>None\<close>, and
  the callback raises \<^verbatim>\<open>PreventUpdate\<close> whatever the date range is; none of the eight
  outputs is written, so the page keeps what it showed and no zeros are rendered.
\<close>

theorem no_upload_prevents_update:
  "update_dashboard lib None start_date end_date = Inl PreventUpdate \<and>
   fire lib shown None start_date end_date = shown"
  by (simp add: update_dashboard_def fire_def)

subsection \<open>Uploads that cannot be read\<close>

lemma data_frames_append:
  "data_frames lib (xs @ ys) =
     seq (data_frames lib xs) (\<lambda>a. seq (data_frames lib ys) (\<lambda>b. Inr (a @ b)))"
  by (induction xs) (auto simp: seq_def split: sum.splits)

lemma data_frames_unreadable:
  assumes "decode_content lib content = Inr decoded" and "read_excel lib decoded = None"
  shows "data_frames lib (content # rest) = data_frames lib rest"
  using assms by (simp add: try_fragment_def split: sum.splits)

lemma data_frames_total:
  "list_all (\<lambda>c. \<exists>d. decode_content lib c = Inr d) contents \<Longrightarrow>
   \<exists>dfs. data_frames lib contents = Inr dfs"
  by (induction contents) auto

text \<open>
  Claim C6. An upload whose bytes \<^verbatim>\<open>read_excel\<close> cannot parse is caught inside the loop and
  adds no rows: the frames collected, the table returned by \<^verbatim>\<open>process_uploaded_files\<close>
  and the result of the callback are what they are without that upload, wherever it stands
  among the others. No parse failure ends the loop: for contents that all decode, the loop
  returns its list of frames, however many of them fail to parse.
\<close>

theorem unparseable_upload_dropped:
  assumes "decode_content lib content = Inr decoded" and "read_excel lib decoded = None"
  shows "data_frames lib (before @ content # after) = data_frames lib (before @ after) \<and>
         process_uploaded_files lib (before @ content # after) =
           process_uploaded_files lib (before @ after) \<and>
         update_dashboard lib (Some (before @ content # after)) start_date end_date =
           update_dashboard lib (Some (before @ after)) start_date end_date \<and>
         (list_all (\<lambda>c. \<exists>d. decode_content lib c = Inr d) contents \<longrightarrow>
            (\<exists>dfs. data_frames lib contents = Inr dfs))"
proof -
  have a: "data_frames lib (before @ content # after) = data_frames lib (before @ after)"
    by (simp only: data_frames_append data_frames_unreadable[OF assms])
  then have b: "process_uploaded_files lib (before @ content # after) =
      process_uploaded_files lib (before @ after)"
    by (simp add: process_uploaded_files_def)
  then have c: "update_dashboard lib (Some (before @ content # after)) start_date end_date =
      update_dashboard lib (Some (before @ after)) start_date end_date"
    by (simp add: update_dashboard_def)
  from a b c data_frames_total show ?thesis by blast
qed

text \<open>
  An upload of junk between two good ones: the seven rows of the good ones are returned.
  Two uploads of junk: the loop ends with no frame.
\<close>

theorem unparseable_upload_dropped_witness:
  "decode_content example_lib (upload ''junk'') = Inr ''junk'' \<and>
   read_excel example_lib ''junk'' = None \<and>
   process_uploaded_files example_lib [upload ''export'', upload ''junk'', upload ''emptydate''] =
     process_uploaded_files example_lib [upload ''export'', upload ''emptydate''] \<and>
   map_sum id len
     (process_uploaded_files example_lib [upload ''export'', upload ''junk'', upload ''emptydate''])
     = Inr 7 \<and>
   list_all (\<lambda>c. \<exists>d. decode_content example_lib c = Inr d) [upload ''junk'', upload ''twice''] \<and>
   data_frames example_lib [upload ''junk'', upload ''twice''] = Inr []"
proof -
  have h1: "decode_content example_lib (upload ''junk'') = Inr ''junk''" by code_simp
  have h2: "read_excel example_lib ''junk'' = None" by code_simp
  have h3: "decode_content example_lib (upload ''twice'') = Inr ''twice''" by code_simp
  have h4: "list_all (\<lambda>c. \<exists>d. decode_content example_lib c = Inr d)
     [upload ''junk'', upload ''twice'']" using h1 h3 by simp
  note t = unparseable_upload_dropped[OF h1 h2, of "[upload ''export'']" "[upload ''emptydate'']"]
  have e1: "process_uploaded_files example_lib [upload ''export'', upload ''junk'', upload ''emptydate''] =
     process_uploaded_files example_lib [upload ''export'', upload ''emptydate'']"
    using t by simp
  have e2: "map_sum id len (process_uploaded_files example_lib [upload ''export'', upload ''emptydate'']) = Inr 7"
    by code_simp
  have e3: "data_frames example_lib [upload ''junk'', upload ''twice''] = Inr []" by code_simp
  from h1 h2 h4 e1 e2 e3 show ?thesis by simp
qed

subsection \<open>No accepted fragment\<close>

lemma locs_required:
  "locs REQUIRED_COLUMNS ''Keyword'' = [0]"
  "locs REQUIRED_COLUMNS ''URL'' = [1]"
  "locs REQUIRED_COLUMNS ''Findings'' = [2]"
  "locs REQUIRED_COLUMNS ''Date'' = [5]"
  by code_simp+

lemma aggregate_no_rows:
  assumes "parse lib start_date = Inr a" and "parse lib end_date = Inr b"
  shows "aggregate lib \<lparr>columns = REQUIRED_COLUMNS, rows = []\<rparr> start_date end_date =
     Inr \<lparr>total_findings = 0, unique_keywords = 0, monitored_urls = 0,
          found_keyword_count = 0, findings_over_time = [], keyword_data = [],
          success_counts = [],
          filtered_data = \<lparr>columns = REQUIRED_COLUMNS, rows = []\<rparr>\<rparr>"
  using assms
  by (simp add: aggregate_def seq_def getitem_def setitem_def boolean_index_def locs_required
      to_datetime_def len_def unique_def str_accessor_def groupby_size_def value_counts_def
      sizes_def sort_by_def)

text \<open>
  Claim C5. When the loop accepts no fragment (no upload at all, or none that is valid) and
  the two dates of the range can be read, \<^verbatim>\<open>process_uploaded_files\<close> returns the empty
  table with the six columns, and the aggregation of it returns, without raising, the four
  counters 0, the three series empty and the table empty; the callback renders exactly that.
\<close>

theorem no_fragments_all_zero:
  assumes "data_frames lib contents = Inr []"
    and "parse lib start_date = Inr a" and "parse lib end_date = Inr b"
  shows "process_uploaded_files lib contents = Inr \<lparr>columns = REQUIRED_COLUMNS, rows = []\<rparr> \<and>
         aggregate lib \<lparr>columns = REQUIRED_COLUMNS, rows = []\<rparr> start_date end_date =
           Inr \<lparr>total_findings = 0, unique_keywords = 0, monitored_urls = 0,
                found_keyword_count = 0, findings_over_time = [], keyword_data = [],
                success_counts = [],
                filtered_data = \<lparr>columns = REQUIRED_COLUMNS, rows = []\<rparr>\<rparr> \<and>
         update_dashboard lib (Some contents) start_date end_date =
           Inr \<lparr>total_findings_children = ''Total Findings: 0'',
                unique_keywords_children = ''Unique Keywords: 0'',
                monitored_urls_children = ''Monitored URLs: 0'',
                found_keyword_count_children = ''Found Keywords: 0'',
                findings_fig = [], keyword_frequency_fig = [], success_fig = [],
                table_data = []\<rparr>"
proof -
  have p: "process_uploaded_files lib contents = Inr \<lparr>columns = REQUIRED_COLUMNS, rows = []\<rparr>"
    using assms(1) by (simp add: process_uploaded_files_def)
  note g = aggregate_no_rows[OF assms(2,3)]
  have z: "str_nat 0 = ''0''" by code_simp
  have u: "update_dashboard lib (Some contents) start_date end_date =
           Inr \<lparr>total_findings_children = ''Total Findings: 0'',
                unique_keywords_children = ''Unique Keywords: 0'',
                monitored_urls_children = ''Monitored URLs: 0'',
                found_keyword_count_children = ''Found Keywords: 0'',
                findings_fig = [], keyword_frequency_fig = [], success_fig = [],
                table_data = []\<rparr>"
    by (simp add: update_dashboard_def p g render_def z to_dict_records_def)
  from p g u show ?thesis by simp
qed

text \<open>No upload; and three uploads none of which is accepted.\<close>

theorem no_fragments_all_zero_witness:
  "data_frames example_lib [] = Inr [] \<and>
   data_frames example_lib [upload ''junk'', upload ''notime'', upload ''canonical''] = Inr [] \<and>
   parse example_lib ''2021-01-01'' = Inr (Some 1) \<and>
   parse example_lib ''2021-12-31'' = Inr (Some 365) \<and>
   update_dashboard example_lib (Some []) ''2021-01-01'' ''2021-12-31'' =
     Inr \<lparr>total_findings_children = ''Total Findings: 0'',
          unique_keywords_children = ''Unique Keywords: 0'',
          monitored_urls_children = ''Monitored URLs: 0'',
          found_keyword_count_children = ''Found Keywords: 0'',
          findings_fig = [], keyword_frequency_fig = [], success_fig = [],
          table_data = []\<rparr> \<and>
   update_dashboard example_lib (Some [upload ''junk'', upload ''notime'', upload ''canonical''])
       ''2021-01-01'' ''2021-12-31'' =
     Inr \<lparr>total_findings_children = ''Total Findings: 0'',
          unique_keywords_children = ''Unique Keywords: 0'',
          monitored_urls_children = ''Monitored URLs: 0'',
          found_keyword_count_children = ''Found Keywords: 0'',
          findings_fig = [], keyword_frequency_fig = [], success_fig = [],
          table_data = []\<rparr>"
proof -
  have h0: "data_frames example_lib [] = Inr []" by simp
  have h1: "data_frames example_lib [upload ''junk'', upload ''notime'', upload ''canonical''] = Inr []"
    by code_simp
  have h2: "parse example_lib ''2021-01-01'' = Inr (Some 1)" by code_simp
  have h3: "parse example_lib ''2021-12-31'' = Inr (Some 365)" by code_simp
  from no_fragments_all_zero[OF h0 h2 h3] no_fragments_all_zero[OF h1 h2 h3] h0 h1 h2 h3
  show ?thesis by simp
qed

subsection \<open>Two headers that fold to the same name\<close>

text \<open>
  Claim C9 says that the table \<^verbatim>\<open>process_uploaded_files\<close> returns always has exactly the
  six canonical columns. At an upload whose sheet has the headers \<^verbatim>\<open>" Link "\<close> and
  \<^verbatim>\<open>"LINK"\<close> both become \<^verbatim>\<open>URL\<close>, the projection keeps both, and the table returned has
  seven columns; the callback then fails on it with \<^verbatim>\<open>AttributeError\<close>.
\<close>

theorem repeated_label_gives_seven_columns:
  "process_uploaded_files example_lib [upload ''twolinks''] =
     Inr \<lparr>columns = [''Keyword'', ''URL'', ''URL'', ''Findings'', ''Link Response'',
                     ''Time'', ''Date''],
          rows = [[Str ''leak'', Str ''a.onion'', Str ''mirror.onion'', Str ''Keyword found'',
                   Str ''200'', Str ''10:00'', Str ''2021-01-01'']]\<rparr> \<and>
   update_dashboard example_lib (Some [upload ''twolinks'']) ''2021-01-01'' ''2021-12-31'' =
     Inl AttributeError"
  by code_simp

subsection \<open>The steps of the aggregation\<close>

lemma getitem_Inr:
  "getitem e df c = Inr xs \<longleftrightarrow>
     (\<exists>i. locs (columns df) c = [i] \<and> xs = map (\<lambda>row. cell_at row i) (rows df))"
  by (auto simp: getitem_def split: list.splits)

lemma columns_setitem [simp]: "columns (setitem df c vals) = columns df"
  by (simp add: setitem_def)

lemma columns_boolean_index [simp]: "columns (boolean_index df keep) = columns df"
  by (simp add: boolean_index_def)

lemma columns_date_filter [simp]: "columns (date_filter df dates a b) = columns df"
  by (simp add: date_filter_def)

lemma getitem_same_columns:
  "getitem e df c = Inr xs \<Longrightarrow> columns df' = columns df \<Longrightarrow>
   \<exists>ys. getitem e' df' c = Inr ys"
  by (auto simp: getitem_Inr)

lemma aggregate_Inr:
  assumes "aggregate lib data start_date end_date = Inr d"
  obtains raw dates a b kws urls findings whole days hits where
    "getitem ValueError data ''Date'' = Inr raw"
    "to_datetime lib raw = Inr dates"
    "parse lib start_date = Inr a"
    "parse lib end_date = Inr b"
    "getitem AttributeError (date_filter data dates a b) ''Keyword'' = Inr kws"
    "getitem AttributeError (date_filter data dates a b) ''URL'' = Inr urls"
    "getitem AttributeError (date_filter data dates a b) ''Findings'' = Inr findings"
    "getitem AttributeError (setitem data ''Date'' (map as_cell dates)) ''Findings'' = Inr whole"
    "str_accessor whole findings"
    "getitem KeyError (date_filter data dates a b) ''Date'' = Inr days"
    "getitem KeyError
       (boolean_index (date_filter data dates a b) (map (str_contains ''Keyword found'') findings))
       ''Keyword'' = Inr hits"
    "d = \<lparr>total_findings = len (date_filter data dates a b),
          unique_keywords = length (unique kws),
          monitored_urls = length (unique urls),
          found_keyword_count =
            len (boolean_index (date_filter data dates a b)
                   (map (str_contains ''Keyword found'') findings)),
          findings_over_time = groupby_size days,
          keyword_data = value_counts kws,
          success_counts = groupby_size hits,
          filtered_data = date_filter data dates a b\<rparr>"
  using assms unfolding aggregate_def seq_def Let_def date_filter_def
  by (auto split: sum.splits if_splits)

subsection \<open>Positive matches\<close>

lemma rows_boolean_index:
  "rows (boolean_index df keep) = map fst (filter snd (zip (rows df) keep))"
  by (simp add: boolean_index_def)

lemma keep_by_predicate: "map fst (filter snd (zip xs (map P xs))) = filter P xs"
  by (induction xs) auto

lemma keep_by_column:
  "map fst (filter snd (zip rs (map P (map f rs)))) = filter (\<lambda>r. P (f r)) rs"
  using keep_by_predicate[of rs "\<lambda>r. P (f r)"] by (simp add: comp_def)

lemma column_of_kept:
  "map g (filter (\<lambda>r. P (f r)) rs) =
     map fst (filter (\<lambda>p. P (snd p)) (zip (map g rs) (map f rs)))"
  by (induction rs) auto

lemma match_here_iff: "match_here p s \<longleftrightarrow> (\<exists>v. lower s = lower p @ v)"
  by (induction p s rule: match_here.induct) (auto simp: lower_def)

lemma search_iff: "search p s \<longleftrightarrow> (\<exists>u v. lower s = u @ lower p @ v)"
proof (induction s)
  case Nil
  show ?case by (simp add: match_here_iff) (auto simp: lower_def)
next
  case (Cons c cs)
  have "(\<exists>u v. lower (c # cs) = u @ lower p @ v) \<longleftrightarrow>
        (\<exists>v. lower (c # cs) = lower p @ v) \<or> (\<exists>u v. lower cs = u @ lower p @ v)"
  proof
    assume "\<exists>u v. lower (c # cs) = u @ lower p @ v"
    then obtain u v where e: "lower (c # cs) = u @ lower p @ v" by blast
    show "(\<exists>v. lower (c # cs) = lower p @ v) \<or> (\<exists>u v. lower cs = u @ lower p @ v)"
    proof (cases u)
      case Nil
      with e show ?thesis by auto
    next
      case (Cons x u')
      with e have "lower cs = u' @ lower p @ v" by (simp add: lower_def)
      then show ?thesis by blast
    qed
  next
    assume "(\<exists>v. lower (c # cs) = lower p @ v) \<or> (\<exists>u v. lower cs = u @ lower p @ v)"
    then show "\<exists>u v. lower (c # cs) = u @ lower p @ v"
    proof
      assume "\<exists>v. lower (c # cs) = lower p @ v"
      then obtain v where "lower (c # cs) = [] @ lower p @ v" by auto
      then show ?thesis by blast
    next
      assume "\<exists>u v. lower cs = u @ lower p @ v"
      then obtain u v where "lower cs = u @ lower p @ v" by blast
      then have "lower (c # cs) = (lower_char c # u) @ lower p @ v" by (simp add: lower_def)
      then show ?thesis by blast
    qed
  qed
  with Cons show ?case by (simp add: match_here_iff)
qed

lemma lower_marker: "lower ''Keyword found'' = ''keyword found''"
  by code_simp

lemma str_contains_marker:
  "str_contains ''Keyword found'' c \<longleftrightarrow>
     (\<exists>s u v. c = Str s \<and> lower s = u @ ''keyword found'' @ v)"
  by (cases c) (simp_all add: search_iff lower_marker)

text \<open>
  Claim C3. Whenever the aggregation returns, the rows counted in \<open>found_keyword_count\<close>
  and grouped into \<open>success_counts\<close> (the keyword success series) are exactly the rows of
  the filtered table whose \<^verbatim>\<open>Findings\<close> value is a positive match; and a value is a positive
  match if and only if it is a string that contains \<^verbatim>\<open>keyword found\<close> once both are
  lowercased. A missing value is never one: \<^verbatim>\<open>KEYWORD FOUND: xyz\<close> is positive,
  \<^verbatim>\<open>nothing\<close> and a missing value are negative.
\<close>

theorem positive_match:
  assumes "aggregate lib data start_date end_date = Inr d"
  shows "\<exists>kws findings.
           getitem AttributeError (filtered_data d) ''Keyword'' = Inr kws \<and>
           getitem AttributeError (filtered_data d) ''Findings'' = Inr findings \<and>
           found_keyword_count d = length (filter (str_contains ''Keyword found'') findings) \<and>
           success_counts d =
             groupby_size
               (map fst (filter (\<lambda>p. str_contains ''Keyword found'' (snd p)) (zip kws findings))) \<and>
           (\<forall>c. str_contains ''Keyword found'' c \<longleftrightarrow>
                (\<exists>s u v. c = Str s \<and> lower s = u @ ''keyword found'' @ v)) \<and>
           str_contains ''Keyword found'' (Str ''KEYWORD FOUND: xyz'') \<and>
           \<not> str_contains ''Keyword found'' (Str ''nothing'') \<and>
           \<not> str_contains ''Keyword found'' Null"
proof -
  from assms obtain raw dates a b kws urls findings whole days hits where
    k: "getitem AttributeError (date_filter data dates a b) ''Keyword'' = Inr kws" and
    f: "getitem AttributeError (date_filter data dates a b) ''Findings'' = Inr findings" and
    h: "getitem KeyError
       (boolean_index (date_filter data dates a b) (map (str_contains ''Keyword found'') findings))
       ''Keyword'' = Inr hits" and
    d: "d = \<lparr>total_findings = len (date_filter data dates a b),
          unique_keywords = length (unique kws),
          monitored_urls = length (unique urls),
          found_keyword_count =
            len (boolean_index (date_filter data dates a b)
                   (map (str_contains ''Keyword found'') findings)),
          findings_over_time = groupby_size days,
          keyword_data = value_counts kws,
          success_counts = groupby_size hits,
          filtered_data = date_filter data dates a b\<rparr>"
    by (rule aggregate_Inr)
  let ?F = "date_filter data dates a b"
  let ?P = "str_contains ''Keyword found''"
  from k obtain ik where ik: "locs (columns ?F) ''Keyword'' = [ik]"
    and kws: "kws = map (\<lambda>row. cell_at row ik) (rows ?F)" by (auto simp: getitem_Inr)
  from f obtain jf where jf: "locs (columns ?F) ''Findings'' = [jf]"
    and fnd: "findings = map (\<lambda>row. cell_at row jf) (rows ?F)" by (auto simp: getitem_Inr)
  have kept: "rows (boolean_index ?F (map ?P findings)) = filter (\<lambda>r. ?P (cell_at r jf)) (rows ?F)"
    unfolding rows_boolean_index fnd by (rule keep_by_column)
  have "length (filter ?P findings) = length (filter (\<lambda>r. ?P (cell_at r jf)) (rows ?F))"
    by (simp add: fnd filter_map comp_def)
  moreover have "found_keyword_count d = length (rows (boolean_index ?F (map ?P findings)))"
    by (simp add: d len_def)
  ultimately have cnt: "found_keyword_count d = length (filter ?P findings)"
    by (simp only: kept)
  from h ik have "hits = map (\<lambda>row. cell_at row ik) (rows (boolean_index ?F (map ?P findings)))"
    by (auto simp: getitem_Inr)
  then have "hits = map (\<lambda>row. cell_at row ik) (filter (\<lambda>r. ?P (cell_at r jf)) (rows ?F))"
    by (simp only: kept)
  also have "\<dots> = map fst (filter (\<lambda>p. ?P (snd p))
      (zip (map (\<lambda>row. cell_at row ik) (rows ?F)) (map (\<lambda>row. cell_at row jf) (rows ?F))))"
    by (rule column_of_kept)
  finally have "hits = map fst (filter (\<lambda>p. ?P (snd p)) (zip kws findings))"
    by (simp only: kws fnd)
  then have suc: "success_counts d =
      groupby_size (map fst (filter (\<lambda>p. ?P (snd p)) (zip kws findings)))"
    by (simp add: d)
  have e1: "?P (Str ''KEYWORD FOUND: xyz'')" by code_simp
  have e2: "\<not> ?P (Str ''nothing'')" by code_simp
  have e3: "\<not> ?P Null" by simp
  have fd: "filtered_data d = ?F" by (simp add: d)
  show ?thesis
  proof (intro exI conjI allI)
    show "getitem AttributeError (filtered_data d) ''Keyword'' = Inr kws"
      using k by (simp only: fd)
    show "getitem AttributeError (filtered_data d) ''Findings'' = Inr findings"
      using f by (simp only: fd)
    show "found_keyword_count d = length (filter ?P findings)" by (rule cnt)
    show "success_counts d =
      groupby_size (map fst (filter (\<lambda>p. ?P (snd p)) (zip kws findings)))" by (rule suc)
    show "?P c \<longleftrightarrow> (\<exists>s u v. c = Str s \<and> lower s = u @ ''keyword found'' @ v)" for c
      by (rule str_contains_marker)
    show "?P (Str ''KEYWORD FOUND: xyz'')" by (rule e1)
    show "\<not> ?P (Str ''nothing'')" by (rule e2)
    show "\<not> ?P Null" by (rule e3)
  qed
qed

text \<open>
  The export over the whole year 2021: five rows, of which the first and the fourth are
  positive.
\<close>

theorem positive_match_witness:
  "aggregate example_lib table_export ''2021-01-01'' ''2021-12-31'' =
     Inr \<lparr>total_findings = 5, unique_keywords = 2, monitored_urls = 3,
          found_keyword_count = 2,
          findings_over_time = [(Stamp 1, 3), (Stamp 32, 2)],
          keyword_data = [(Str ''leak'', 3), (Str ''dump'', 2)],
          success_counts = [(Str ''dump'', 1), (Str ''leak'', 1)],
          filtered_data = date_filter table_export [Some 1, Some 1, Some 1, Some 32, Some 32]
                            (Some 1) (Some 365)\<rparr> \<and>
   getitem AttributeError
      (date_filter table_export [Some 1, Some 1, Some 1, Some 32, Some 32] (Some 1) (Some 365))
      ''Findings'' =
     Inr [Str ''KEYWORD FOUND: xyz'', Str ''nothing'', Null, Str ''Keyword found in page'',
          Str ''nothing''] \<and>
   length (filter (str_contains ''Keyword found'')
     [Str ''KEYWORD FOUND: xyz'', Str ''nothing'', Null, Str ''Keyword found in page'',
      Str ''nothing'']) = 2 \<and>
   str_contains ''Keyword found'' (Str ''KEYWORD FOUND: xyz'') \<and>
   \<not> str_contains ''Keyword found'' (Str ''nothing'') \<and>
   \<not> str_contains ''Keyword found'' Null"
proof -
  have a: "aggregate example_lib table_export ''2021-01-01'' ''2021-12-31'' =
     Inr \<lparr>total_findings = 5, unique_keywords = 2, monitored_urls = 3,
          found_keyword_count = 2,
          findings_over_time = [(Stamp 1, 3), (Stamp 32, 2)],
          keyword_data = [(Str ''leak'', 3), (Str ''dump'', 2)],
          success_counts = [(Str ''dump'', 1), (Str ''leak'', 1)],
          filtered_data = date_filter table_export [Some 1, Some 1, Some 1, Some 32, Some 32]
                            (Some 1) (Some 365)\<rparr>"
    by code_simp
  have g: "getitem AttributeError
      (date_filter table_export [Some 1, Some 1, Some 1, Some 32, Some 32] (Some 1) (Some 365))
      ''Findings'' =
     Inr [Str ''KEYWORD FOUND: xyz'', Str ''nothing'', Null, Str ''Keyword found in page'',
          Str ''nothing'']"
    by code_simp
  have n: "length (filter (str_contains ''Keyword found'')
     [Str ''KEYWORD FOUND: xyz'', Str ''nothing'', Null, Str ''Keyword found in page'',
      Str ''nothing'']) = 2"
    by code_simp
  have t: "str_contains ''Keyword found'' (Str ''KEYWORD FOUND: xyz'') \<and>
      \<not> str_contains ''Keyword found'' (Str ''nothing'') \<and>
      \<not> str_contains ''Keyword found'' Null"
    using positive_match[OF a] by (elim exE conjE) (intro conjI, assumption+)
  from a g n t show ?thesis by (elim conjE) (intro conjI, assumption+)
qed

subsection \<open>The date range\<close>

lemma convert_length: "convert lib fmt cs = Inr ts \<Longrightarrow> length ts = length cs"
  by (induction cs arbitrary: ts) (auto split: sum.splits)

lemma to_datetime_length: "to_datetime lib cs = Inr ts \<Longrightarrow> length ts = length cs"
  unfolding to_datetime_def by (rule convert_length)

lemma count_kept:
  "length xs = length ys \<Longrightarrow> length (filter snd (zip xs (map P ys))) = length (filter P ys)"
  by (induction xs ys rule: list_induct2) auto

lemma set_kept:
  "length ks = length rs \<Longrightarrow>
   set (map fst (filter snd (zip rs ks))) = {rs ! i | i. i < length rs \<and> ks ! i}"
  by (auto simp: set_zip image_iff) force

lemma rows_setitem_length:
  "length vals = length (rows df) \<Longrightarrow> length (rows (setitem df c vals)) = length (rows df)"
  by (simp add: setitem_def)

lemma in_range_Some: "in_range (Some a) (Some b) (Some t) \<longleftrightarrow> a \<le> t \<and> t \<le> b"
  by (simp add: in_range_def)


text \<open>
  Claim C4. Let the aggregation of a table return, let \<open>dates\<close> be the converted
  \<^verbatim>\<open>Date\<close> column and \<open>a\<close>, \<open>b\<close> the converted start and end of the range. The filtered
  table is the table with its dates converted, cut down to the rows whose date lies between
  \<open>a\<close> and \<open>b\<close>, both included: in a range with \<open>a \<le> b\<close>, a row dated exactly \<open>a\<close> or
  exactly \<open>b\<close> is in the filtered table; every row of the filtered table is a row dated
  from \<open>a\<close> to \<open>b\<close>, so a row dated before \<open>a\<close> or after \<open>b\<close> is kept out; and
  \<open>total_findings\<close> counts the dates from \<open>a\<close> to \<open>b\<close>.
\<close>

theorem date_filter_inclusive:
  assumes "aggregate lib data start_date end_date = Inr d"
    and "getitem ValueError data ''Date'' = Inr raw"
    and "to_datetime lib raw = Inr dates"
    and "parse lib start_date = Inr (Some a)"
    and "parse lib end_date = Inr (Some b)"
  shows "filtered_data d =
           boolean_index (setitem data ''Date'' (map as_cell dates))
             (map (in_range (Some a) (Some b)) dates) \<and>
         length dates = len data \<and>
         len (setitem data ''Date'' (map as_cell dates)) = len data \<and>
         (\<forall>i t. i < len data \<and> dates ! i = Some t \<and> a \<le> b \<and> (t = a \<or> t = b) \<longrightarrow>
            rows (setitem data ''Date'' (map as_cell dates)) ! i \<in> set (rows (filtered_data d))) \<and>
         (\<forall>row \<in> set (rows (filtered_data d)).
            \<exists>i t. i < len data \<and> row = rows (setitem data ''Date'' (map as_cell dates)) ! i \<and>
                  dates ! i = Some t \<and> a \<le> t \<and> t \<le> b) \<and>
         total_findings d = length (filter (\<lambda>x. \<exists>t. x = Some t \<and> a \<le> t \<and> t \<le> b) dates)"
proof -
  from assms(1) obtain raw' dates' a' b' where
    r: "getitem ValueError data ''Date'' = Inr raw'" and
    t: "to_datetime lib raw' = Inr dates'" and
    pa: "parse lib start_date = Inr a'" and pb: "parse lib end_date = Inr b'" and
    tf: "total_findings d = len (date_filter data dates' a' b')" and
    fd: "filtered_data d = date_filter data dates' a' b'"
    by (rule aggregate_Inr) simp
  from r assms(2) have "raw' = raw" by simp
  with t assms(3) have "dates' = dates" by simp
  from pa assms(4) have "a' = Some a" by simp
  from pb assms(5) have "b' = Some b" by simp
  let ?D = "setitem data ''Date'' (map as_cell dates)"
  let ?K = "map (in_range (Some a) (Some b)) dates"
  have F: "filtered_data d = boolean_index ?D ?K"
    using fd \<open>dates' = dates\<close> \<open>a' = Some a\<close> \<open>b' = Some b\<close> by (simp add: date_filter_def)
  from assms(2) have "length raw = length (rows data)" by (auto simp: getitem_Inr)
  with to_datetime_length[OF assms(3)] have L: "length dates = len data" by (simp add: len_def)
  then have LD: "len ?D = len data" by (simp add: len_def rows_setitem_length)
  have LK: "length ?K = length (rows ?D)" using L LD by (simp add: len_def)
  have S: "set (rows (filtered_data d)) = {rows ?D ! i | i. i < length (rows ?D) \<and> ?K ! i}"
    unfolding F rows_boolean_index by (rule set_kept[OF LK])
  have incl: "\<forall>i t. i < len data \<and> dates ! i = Some t \<and> a \<le> b \<and> (t = a \<or> t = b) \<longrightarrow>
            rows ?D ! i \<in> set (rows (filtered_data d))"
  proof (intro allI impI)
    fix i t
    assume h: "i < len data \<and> dates ! i = Some t \<and> a \<le> b \<and> (t = a \<or> t = b)"
    then have "?K ! i" using L by (auto simp: in_range_Some)
    with h LD show "rows ?D ! i \<in> set (rows (filtered_data d))"
      unfolding S by (auto simp: len_def)
  qed
  have excl: "\<forall>row \<in> set (rows (filtered_data d)).
            \<exists>i t. i < len data \<and> row = rows ?D ! i \<and> dates ! i = Some t \<and> a \<le> t \<and> t \<le> b"
  proof
    fix row
    assume "row \<in> set (rows (filtered_data d))"
    then obtain i where i: "i < length (rows ?D)" "?K ! i" "row = rows ?D ! i"
      unfolding S by blast
    from i(1) LD L have il: "i < len data" "i < length dates" by (simp_all add: len_def)
    with i(2) have "in_range (Some a) (Some b) (dates ! i)" by simp
    then obtain t where "dates ! i = Some t" "a \<le> t" "t \<le> b"
      by (cases "dates ! i") (simp_all add: in_range_def)
    with il i(3) show "\<exists>i t. i < len data \<and> row = rows ?D ! i \<and> dates ! i = Some t \<and> a \<le> t \<and> t \<le> b"
      by blast
  qed
  have "(\<lambda>x. \<exists>t. x = Some t \<and> a \<le> t \<and> t \<le> b) = in_range (Some a) (Some b)"
  proof
    fix x show "(\<exists>t. x = Some t \<and> a \<le> t \<and> t \<le> b) = in_range (Some a) (Some b) x"
      by (cases x) (simp_all add: in_range_def)
  qed
  moreover have "total_findings d = length (filter (in_range (Some a) (Some b)) dates)"
  proof -
    have "total_findings d = length (rows (boolean_index ?D ?K))"
      using tf fd F by (simp add: len_def)
    also have "\<dots> = length (filter snd (zip (rows ?D) ?K))"
      by (simp add: rows_boolean_index)
    also have "\<dots> = length (filter (in_range (Some a) (Some b)) dates)"
      using LK by (intro count_kept) simp
    finally show ?thesis .
  qed
  ultimately have cnt: "total_findings d =
      length (filter (\<lambda>x. \<exists>t. x = Some t \<and> a \<le> t \<and> t \<le> b) dates)" by simp
  from F L LD incl excl cnt show ?thesis by blast
qed

text \<open>
  The export has three rows on 1 January 2021 and two on 1 February 2021. The range from
  1 January to 1 February keeps all five, the rows on either bound included; the range from
  1 January to 31 January keeps three, in one date bucket.
\<close>

theorem date_filter_inclusive_witness:
  "aggregate example_lib table_export ''2021-01-01'' ''2021-02-01'' =
     Inr \<lparr>total_findings = 5, unique_keywords = 2, monitored_urls = 3,
          found_keyword_count = 2,
          findings_over_time = [(Stamp 1, 3), (Stamp 32, 2)],
          keyword_data = [(Str ''leak'', 3), (Str ''dump'', 2)],
          success_counts = [(Str ''dump'', 1), (Str ''leak'', 1)],
          filtered_data = date_filter table_export [Some 1, Some 1, Some 1, Some 32, Some 32]
                            (Some 1) (Some 32)\<rparr> \<and>
   aggregate example_lib table_export ''2021-01-01'' ''2021-01-31'' =
     Inr \<lparr>total_findings = 3, unique_keywords = 2, monitored_urls = 2,
          found_keyword_count = 1,
          findings_over_time = [(Stamp 1, 3)],
          keyword_data = [(Str ''leak'', 2), (Str ''dump'', 1)],
          success_counts = [(Str ''leak'', 1)],
          filtered_data = date_filter table_export [Some 1, Some 1, Some 1, Some 32, Some 32]
                            (Some 1) (Some 31)\<rparr> \<and>
   getitem ValueError table_export ''Date'' =
     Inr [Str ''2021-01-01'', Str ''2021-01-01'', Stamp 1, Str ''2021-02-01'', Str ''2021-02-01''] \<and>
   to_datetime example_lib
     [Str ''2021-01-01'', Str ''2021-01-01'', Stamp 1, Str ''2021-02-01'', Str ''2021-02-01''] =
     Inr [Some 1, Some 1, Some 1, Some 32, Some 32] \<and>
   parse example_lib ''2021-01-01'' = Inr (Some 1) \<and>
   parse example_lib ''2021-02-01'' = Inr (Some 32) \<and>
   parse example_lib ''2021-01-31'' = Inr (Some 31) \<and>
   length (filter (\<lambda>x. \<exists>t. x = Some t \<and> 1 \<le> t \<and> t \<le> 32)
             [Some 1, Some 1, Some 1, Some 32, Some (32::int)]) = 5 \<and>
   length (filter (\<lambda>x. \<exists>t. x = Some t \<and> 1 \<le> t \<and> t \<le> 31)
             [Some 1, Some 1, Some 1, Some 32, Some (32::int)]) = 3"
proof -
  let ?dates = "[Some 1, Some 1, Some 1, Some 32, Some (32::int)]"
  let ?d1 = "\<lparr>total_findings = 5, unique_keywords = 2, monitored_urls = 3,
          found_keyword_count = 2,
          findings_over_time = [(Stamp 1, 3), (Stamp 32, 2)],
          keyword_data = [(Str ''leak'', 3), (Str ''dump'', 2)],
          success_counts = [(Str ''dump'', 1), (Str ''leak'', 1)],
          filtered_data = date_filter table_export ?dates (Some 1) (Some 32)\<rparr>"
  let ?d2 = "\<lparr>total_findings = 3, unique_keywords = 2, monitored_urls = 2,
          found_keyword_count = 1,
          findings_over_time = [(Stamp 1, 3)],
          keyword_data = [(Str ''leak'', 2), (Str ''dump'', 1)],
          success_counts = [(Str ''leak'', 1)],
          filtered_data = date_filter table_export ?dates (Some 1) (Some 31)\<rparr>"
  have a1: "aggregate example_lib table_export ''2021-01-01'' ''2021-02-01'' = Inr ?d1"
    by code_simp
  have a2: "aggregate example_lib table_export ''2021-01-01'' ''2021-01-31'' = Inr ?d2"
    by code_simp
  have g: "getitem ValueError table_export ''Date'' =
     Inr [Str ''2021-01-01'', Str ''2021-01-01'', Stamp 1, Str ''2021-02-01'', Str ''2021-02-01'']"
    by code_simp
  have t: "to_datetime example_lib
     [Str ''2021-01-01'', Str ''2021-01-01'', Stamp 1, Str ''2021-02-01'', Str ''2021-02-01''] =
     Inr ?dates"
    by code_simp
  have p1: "parse example_lib ''2021-01-01'' = Inr (Some 1)" by code_simp
  have p2: "parse example_lib ''2021-02-01'' = Inr (Some 32)" by code_simp
  have p3: "parse example_lib ''2021-01-31'' = Inr (Some 31)" by code_simp
  have "total_findings ?d1 = length (filter (\<lambda>x. \<exists>t. x = Some t \<and> 1 \<le> t \<and> t \<le> 32) ?dates)"
    using date_filter_inclusive[OF a1 g t p1 p2] by (elim conjE)
  then have c1: "length (filter (\<lambda>x. \<exists>t. x = Some t \<and> 1 \<le> t \<and> t \<le> 32) ?dates) = 5"
    by (simp only: dashboard.simps)
  have "total_findings ?d2 = length (filter (\<lambda>x. \<exists>t. x = Some t \<and> 1 \<le> t \<and> t \<le> 31) ?dates)"
    using date_filter_inclusive[OF a2 g t p1 p3] by (elim conjE)
  then have c2: "length (filter (\<lambda>x. \<exists>t. x = Some t \<and> 1 \<le> t \<and> t \<le> 31) ?dates) = 3"
    by (simp only: dashboard.simps)
  from a1 a2 g t p1 p2 p3 c1 c2 show ?thesis by (intro conjI)
qed

subsection \<open>Distinct keywords\<close>

lemma length_unique: "length (unique cs) = card (set cs)"
proof -
  have "length (unique cs) = length (remdups (rev cs))" by (simp add: unique_def)
  also have "\<dots> = card (set (rev cs))" by (rule length_remdups_card_conv)
  finally show ?thesis by simp
qed

lemma map_twice: "map f (twice xs) = twice (map f xs)"
  by (induction xs) (simp_all add: twice_def)

lemma set_twice: "set (twice xs) = set xs"
  by (induction xs) (auto simp: twice_def)

lemma length_twice: "length (twice xs) = 2 * length xs"
  by (induction xs) (simp_all add: twice_def)

lemma twice_Nil: "twice xs = [] \<longleftrightarrow> xs = []"
  by (cases xs) (simp_all add: twice_def)

lemma twice_Cons: "twice (x # xs) = x # x # twice xs"
  by (simp add: twice_def)

lemma zip_twice: "zip (twice xs) (twice ys) = twice (zip xs ys)"
proof (induction xs arbitrary: ys)
  case Nil
  show ?case by (simp add: twice_def)
next
  case (Cons x xs)
  show ?case
  proof (cases ys)
    case Nil
    then show ?thesis by (simp add: twice_def)
  next
    case (Cons y ys')
    with Cons.IH[of ys'] show ?thesis by (simp add: twice_Cons)
  qed
qed

lemma filter_twice: "filter P (twice xs) = twice (filter P xs)"
  by (induction xs) (simp_all add: twice_Cons, simp add: twice_def)

lemma list_ex_twice: "list_ex P (twice xs) = list_ex P xs"
  by (simp add: list_ex_iff set_twice)

lemma list_all_twice: "list_all P (twice xs) = list_all P xs"
  by (simp add: list_all_iff set_twice)

lemma str_accessor_twice: "str_accessor (twice w) (twice p) = str_accessor w p"
  by (simp add: str_accessor_def twice_Nil list_ex_twice list_all_twice)

lemma first_present_twice: "first_present lib (twice cs) = first_present lib cs"
  by (induction lib cs rule: first_present.induct) (simp_all add: twice_Cons, simp add: twice_def)

lemma convert_twice:
  "convert lib fmt cs = Inr ts \<Longrightarrow> convert lib fmt (twice cs) = Inr (twice ts)"
proof (induction cs arbitrary: ts)
  case Nil
  then show ?case by (simp add: twice_def)
next
  case (Cons c cs)
  then show ?case by (auto simp: twice_Cons split: sum.splits)
qed

lemma to_datetime_twice:
  "to_datetime lib cs = Inr ts \<Longrightarrow> to_datetime lib (twice cs) = Inr (twice ts)"
  unfolding to_datetime_def column_format_def first_present_twice by (rule convert_twice)

lemma getitem_twice:
  "getitem e df c = Inr xs \<Longrightarrow> getitem e (df\<lparr>rows := twice (rows df)\<rparr>) c = Inr (twice xs)"
  by (auto simp: getitem_Inr map_twice)

lemma setitem_twice:
  "setitem (df\<lparr>rows := twice (rows df)\<rparr>) c (twice vals) =
     (setitem df c vals)\<lparr>rows := twice (rows (setitem df c vals))\<rparr>"
  by (simp add: setitem_def zip_twice map_twice)

lemma boolean_index_twice:
  "boolean_index (df\<lparr>rows := twice (rows df)\<rparr>) (twice keep) =
     (boolean_index df keep)\<lparr>rows := twice (rows (boolean_index df keep))\<rparr>"
  by (simp add: boolean_index_def zip_twice filter_twice map_twice)

lemma date_filter_twice:
  "date_filter (df\<lparr>rows := twice (rows df)\<rparr>) (twice dates) a b =
     (date_filter df dates a b)\<lparr>rows := twice (rows (date_filter df dates a b))\<rparr>"
  by (simp add: date_filter_def map_twice setitem_twice boolean_index_twice)

lemma aggregate_returns:
  assumes "getitem ValueError data ''Date'' = Inr raw"
    and "to_datetime lib raw = Inr dates"
    and "parse lib start_date = Inr a"
    and "parse lib end_date = Inr b"
    and "getitem AttributeError (date_filter data dates a b) ''Keyword'' = Inr kws"
    and "getitem AttributeError (date_filter data dates a b) ''URL'' = Inr urls"
    and "getitem AttributeError (date_filter data dates a b) ''Findings'' = Inr findings"
    and "getitem AttributeError (setitem data ''Date'' (map as_cell dates)) ''Findings'' = Inr whole"
    and "str_accessor whole findings"
  shows "\<exists>d. aggregate lib data start_date end_date = Inr d \<and>
             total_findings d = len (date_filter data dates a b) \<and>
             unique_keywords d = length (unique kws) \<and>
             filtered_data d = date_filter data dates a b"
proof -
  let ?F = "date_filter data dates a b"
  let ?H = "boolean_index ?F (map (str_contains ''Keyword found'') findings)"
  from assms(1) obtain days where days: "getitem KeyError ?F ''Date'' = Inr days"
    using getitem_same_columns[of ValueError data "''Date''" raw ?F KeyError] by auto
  from assms(5) obtain hits where hits: "getitem KeyError ?H ''Keyword'' = Inr hits"
    using getitem_same_columns[of AttributeError ?F "''Keyword''" kws ?H KeyError] by auto
  show ?thesis
    using assms days hits unfolding aggregate_def date_filter_def
    by (simp add: seq_def Let_def)
qed

text \<open>
  Claim C7. Whenever the aggregation of a table returns, \<open>unique_keywords\<close> is the number
  of distinct values in the \<^verbatim>\<open>Keyword\<close> column of the filtered table (a missing keyword
  counting as one value, as \<^verbatim>\<open>unique()\<close> counts it), \<open>total_findings\<close> is the length of
  that column, and so \<open>unique_keywords \<le> total_findings\<close>. The aggregation of the table
  with every row duplicated returns too, with the same \<open>unique_keywords\<close> and twice the
  \<open>total_findings\<close>.
\<close>

theorem unique_keywords_exact:
  assumes "aggregate lib data start_date end_date = Inr d"
  shows "\<exists>kws. getitem AttributeError (filtered_data d) ''Keyword'' = Inr kws \<and>
           total_findings d = length kws \<and>
           unique_keywords d = card (set kws) \<and>
           unique_keywords d \<le> total_findings d \<and>
           (\<exists>d2. aggregate lib (data\<lparr>rows := twice (rows data)\<rparr>) start_date end_date = Inr d2 \<and>
                 unique_keywords d2 = unique_keywords d \<and>
                 total_findings d2 = 2 * total_findings d)"
proof -
  from assms obtain raw dates a b kws urls findings whole where
    r: "getitem ValueError data ''Date'' = Inr raw" and
    t: "to_datetime lib raw = Inr dates" and
    pa: "parse lib start_date = Inr a" and pb: "parse lib end_date = Inr b" and
    k: "getitem AttributeError (date_filter data dates a b) ''Keyword'' = Inr kws" and
    u: "getitem AttributeError (date_filter data dates a b) ''URL'' = Inr urls" and
    f: "getitem AttributeError (date_filter data dates a b) ''Findings'' = Inr findings" and
    w: "getitem AttributeError (setitem data ''Date'' (map as_cell dates)) ''Findings'' = Inr whole" and
    acc: "str_accessor whole findings" and
    tf: "total_findings d = len (date_filter data dates a b)" and
    uk: "unique_keywords d = length (unique kws)" and
    fd: "filtered_data d = date_filter data dates a b"
    by (rule aggregate_Inr) simp
  let ?F = "date_filter data dates a b"
  let ?data2 = "data\<lparr>rows := twice (rows data)\<rparr>"
  let ?F2 = "date_filter ?data2 (twice dates) a b"
  have lk: "length kws = len ?F" using k by (auto simp: getitem_Inr len_def)
  have c1: "total_findings d = length kws" using tf lk by simp
  have c2: "unique_keywords d = card (set kws)" using uk by (simp add: length_unique)
  have c3: "unique_keywords d \<le> total_findings d" unfolding c1 c2 by (rule card_length)
  have F2: "?F2 = ?F\<lparr>rows := twice (rows ?F)\<rparr>" by (rule date_filter_twice)
  have r2: "getitem ValueError ?data2 ''Date'' = Inr (twice raw)" by (rule getitem_twice[OF r])
  have t2: "to_datetime lib (twice raw) = Inr (twice dates)" by (rule to_datetime_twice[OF t])
  have k2: "getitem AttributeError ?F2 ''Keyword'' = Inr (twice kws)"
    unfolding F2 by (rule getitem_twice[OF k])
  have u2: "getitem AttributeError ?F2 ''URL'' = Inr (twice urls)"
    unfolding F2 by (rule getitem_twice[OF u])
  have f2: "getitem AttributeError ?F2 ''Findings'' = Inr (twice findings)"
    unfolding F2 by (rule getitem_twice[OF f])
  have "setitem ?data2 ''Date'' (map as_cell (twice dates)) =
      (setitem data ''Date'' (map as_cell dates))
        \<lparr>rows := twice (rows (setitem data ''Date'' (map as_cell dates)))\<rparr>"
    unfolding map_twice by (rule setitem_twice)
  then have w2: "getitem AttributeError (setitem ?data2 ''Date'' (map as_cell (twice dates)))
      ''Findings'' = Inr (twice whole)"
    using getitem_twice[OF w] by simp
  have acc2: "str_accessor (twice whole) (twice findings)"
    using acc by (simp add: str_accessor_twice)
  from aggregate_returns[OF r2 t2 pa pb k2 u2 f2 w2 acc2] obtain d2 where
    d2: "aggregate lib ?data2 start_date end_date = Inr d2" and
    tf2: "total_findings d2 = len ?F2" and
    uk2: "unique_keywords d2 = length (unique (twice kws))" by blast
  have e1: "unique_keywords d2 = unique_keywords d"
    using uk2 c2 by (simp add: length_unique set_twice)
  have e2: "total_findings d2 = 2 * total_findings d"
    using tf2 tf by (simp add: F2 len_def length_twice)
  show ?thesis
  proof (intro exI conjI)
    show "getitem AttributeError (filtered_data d) ''Keyword'' = Inr kws"
      using k by (simp only: fd)
    show "total_findings d = length kws" by (rule c1)
    show "unique_keywords d = card (set kws)" by (rule c2)
    show "unique_keywords d \<le> total_findings d" by (rule c3)
    show "aggregate lib ?data2 start_date end_date = Inr d2" by (rule d2)
    show "unique_keywords d2 = unique_keywords d" by (rule e1)
    show "total_findings d2 = 2 * total_findings d" by (rule e2)
  qed
qed

text \<open>The export over 2021: five rows and two keywords; duplicated, ten rows and two.\<close>

theorem unique_keywords_exact_witness:
  "aggregate example_lib table_export ''2021-01-01'' ''2021-12-31'' =
     Inr \<lparr>total_findings = 5, unique_keywords = 2, monitored_urls = 3,
          found_keyword_count = 2,
          findings_over_time = [(Stamp 1, 3), (Stamp 32, 2)],
          keyword_data = [(Str ''leak'', 3), (Str ''dump'', 2)],
          success_counts = [(Str ''dump'', 1), (Str ''leak'', 1)],
          filtered_data = date_filter table_export [Some 1, Some 1, Some 1, Some 32, Some 32]
                            (Some 1) (Some 365)\<rparr> \<and>
   map_sum id (\<lambda>d. (total_findings d, unique_keywords d))
     (aggregate example_lib (table_export\<lparr>rows := twice (rows table_export)\<rparr>)
        ''2021-01-01'' ''2021-12-31'') = Inr (10, 2)"
proof -
  let ?d = "\<lparr>total_findings = 5, unique_keywords = 2, monitored_urls = 3,
          found_keyword_count = 2,
          findings_over_time = [(Stamp 1, 3), (Stamp 32, 2)],
          keyword_data = [(Str ''leak'', 3), (Str ''dump'', 2)],
          success_counts = [(Str ''dump'', 1), (Str ''leak'', 1)],
          filtered_data = date_filter table_export [Some 1, Some 1, Some 1, Some 32, Some 32]
                            (Some 1) (Some 365)\<rparr>"
  have a: "aggregate example_lib table_export ''2021-01-01'' ''2021-12-31'' = Inr ?d"
    by code_simp
  from unique_keywords_exact[OF a] obtain d2 where
    d2: "aggregate example_lib (table_export\<lparr>rows := twice (rows table_export)\<rparr>)
           ''2021-01-01'' ''2021-12-31'' = Inr d2" and
    u: "unique_keywords d2 = unique_keywords ?d" and
    t: "total_findings d2 = 2 * total_findings ?d"
    by (elim exE conjE)
  have "map_sum id (\<lambda>d. (total_findings d, unique_keywords d))
     (aggregate example_lib (table_export\<lparr>rows := twice (rows table_export)\<rparr>)
        ''2021-01-01'' ''2021-12-31'') = Inr (10, 2)"
    using u t by (simp add: d2)
  with a show ?thesis by (intro conjI)
qed

subsection \<open>Dates that cannot be converted\<close>

lemma to_timestamp_error: "to_timestamp lib fmt c = Inl e \<Longrightarrow> e = ValueError"
  by (cases c) (auto split: parsed.splits)

lemma convert_error: "convert lib fmt cs = Inl e \<Longrightarrow> e = ValueError"
proof (induction cs)
  case Nil
  then show ?case by simp
next
  case (Cons c cs)
  then show ?case by (auto split: sum.splits dest: to_timestamp_error)
qed













end
